theory Spec2Isabelle
  imports Main "HOL-Library.AList"
begin

section \<open>JavaScript values\<close>

text \<open>
  A model of \<^verbatim>\<open>EdgeLogger\<close> (\<^verbatim>\<open>src/index.ts\<close>), the logger that buffers records and sends
  them to Axiom in batches.

  The logger takes caller data of type \<^verbatim>\<open>Record<string, unknown>\<close> and, in \<^verbatim>\<open>error\<close>,
  a message of type \<^verbatim>\<open>string | Error | unknown\<close>. The values are modelled by a datatype
  of the JavaScript values that matter to the code: the falsy constants, numbers
  (the integers below \<^verbatim>\<open>1e21\<close> in absolute value, which \<^verbatim>\<open>JSON.stringify\<close> writes in
  decimal digits; fractions, \<^verbatim>\<open>NaN\<close> and the infinities are not among the values), BigInts, strings, arrays, plain objects as their own enumerable
  entries in enumeration order, and \<^verbatim>\<open>Error\<close> instances with their \<^verbatim>\<open>message\<close> and
  optional \<^verbatim>\<open>stack\<close>. An object has each key once; values that refer to themselves
  or carry a \<^verbatim>\<open>toJSON\<close> method are not among the values of the datatype.
\<close>

datatype jsval =
    JUndefined
  | JNull
  | JBool bool
  | JNum int
  | JBigInt int
  | JStr string
  | JArr "jsval list"
  | JObj "(string \<times> jsval) list"
  | JError string "string option"

type_synonym obj = "(string \<times> jsval) list"

datatype exn = TypeError string

text \<open>ToBoolean, as used by \<^verbatim>\<open>||\<close>, \<^verbatim>\<open>!\<close> and \<^verbatim>\<open>if\<close>.\<close>

fun truthy :: "jsval \<Rightarrow> bool" where
  "truthy JUndefined = False"
| "truthy JNull = False"
| "truthy (JBool b) = b"
| "truthy (JNum n) = (n \<noteq> 0)"
| "truthy (JBigInt n) = (n \<noteq> 0)"
| "truthy (JStr s) = (s \<noteq> [])"
| "truthy (JArr xs) = True"
| "truthy (JObj ps) = True"
| "truthy (JError m st) = True"

text \<open>Reading a property: \<^verbatim>\<open>o.k\<close> is \<^verbatim>\<open>undefined\<close> when the object has no such entry.\<close>

definition obj_get :: "obj \<Rightarrow> string \<Rightarrow> jsval" where
  "obj_get ps k = (case map_of ps k of None \<Rightarrow> JUndefined | Some v \<Rightarrow> v)"

text \<open>
  Object spread \<^verbatim>\<open>{...target, ...source}\<close>: every entry of the source is written to the
  target in order; a key the target has keeps its place and takes the new value, a new
  key goes to the end (\<^const>\<open>AList.update\<close>). Keys are taken not to be array indices
  (\<^verbatim>\<open>"0"\<close>, \<^verbatim>\<open>"1"\<close>, ...), which JavaScript enumerates before the others; the order of the
  keys shows in the JSON text of an object only.
\<close>

fun spread :: "obj \<Rightarrow> obj \<Rightarrow> obj" where
  "spread target [] = target"
| "spread target ((k, v) # ps) = spread (AList.update k v target) ps"

subsection \<open>Number and string rendering\<close>

definition digit :: "nat \<Rightarrow> char" where
  "digit n = ''0123456789'' ! n"

fun digits :: "nat \<Rightarrow> string" where
  "digits n = (if n < 10 then [digit n] else digits (n div 10) @ [digit (n mod 10)])"

declare digits.simps [simp del]

definition show_int :: "int \<Rightarrow> string" where
  "show_int i = (if i < 0 then CHR ''-'' # digits (nat (- i)) else digits (nat i))"

definition hex_digit :: "nat \<Rightarrow> char" where
  "hex_digit n = ''0123456789abcdef'' ! n"

text \<open>QuoteJSONString, on one character and on a string.\<close>

definition quote_char :: "char \<Rightarrow> string" where
  "quote_char c =
     (let n = (of_char c :: nat) in
      if n = 8 then [CHR 0x5C, CHR ''b'']
      else if n = 9 then [CHR 0x5C, CHR ''t'']
      else if n = 10 then [CHR 0x5C, CHR ''n'']
      else if n = 12 then [CHR 0x5C, CHR ''f'']
      else if n = 13 then [CHR 0x5C, CHR ''r'']
      else if n = 34 then [CHR 0x5C, CHR 0x22]
      else if n = 92 then [CHR 0x5C, CHR 0x5C]
      else if n < 32 then [CHR 0x5C, CHR ''u'', CHR ''0'', CHR ''0'', hex_digit (n div 16), hex_digit (n mod 16)]
      else [c])"

definition quote :: "string \<Rightarrow> string" where
  "quote s = CHR 0x22 # concat (map quote_char s) @ [CHR 0x22]"

subsection \<open>JSON.stringify\<close>

fun join :: "string \<Rightarrow> string list \<Rightarrow> string" where
  "join sep [] = []"
| "join sep [x] = x"
| "join sep (x # y # ys) = x @ sep @ join sep (y # ys)"

text \<open>
  The closing step of SerializeJSONObject and SerializeJSONArray: \<open>gap\<close> is the
  indentation unit (empty for \<^verbatim>\<open>JSON.stringify(v)\<close>), \<open>stepback\<close> the indentation of the
  enclosing level.
\<close>

definition wrap :: "string \<Rightarrow> string \<Rightarrow> string \<Rightarrow> string \<Rightarrow> string list \<Rightarrow> string" where
  "wrap opening closing gap stepback partial =
     (if partial = [] then opening @ closing
      else if gap = [] then opening @ join '','' partial @ closing
      else opening @ [CHR 0x0A] @ stepback @ gap
           @ join ('','' @ [CHR 0x0A] @ stepback @ gap) partial
           @ [CHR 0x0A] @ stepback @ closing)"

text \<open>
  SerializeJSONProperty. The result is \<open>Inl\<close> when serialisation throws (a BigInt),
  \<open>Inr None\<close> when the value has no JSON text (\<^verbatim>\<open>undefined\<close>), \<open>Inr (Some s)\<close>
  otherwise. In an array a value without text is written \<^verbatim>\<open>null\<close>; in an object
  its entry is left out. An \<^verbatim>\<open>Error\<close> has no enumerable property of its own.
\<close>

fun json_ser :: "string \<Rightarrow> string \<Rightarrow> jsval \<Rightarrow> exn + string option"
  and json_elems :: "string \<Rightarrow> string \<Rightarrow> jsval list \<Rightarrow> exn + string list"
  and json_members :: "string \<Rightarrow> string \<Rightarrow> obj \<Rightarrow> exn + string list"
where
  "json_ser gap ind JUndefined = Inr None"
| "json_ser gap ind JNull = Inr (Some ''null'')"
| "json_ser gap ind (JBool b) = Inr (Some (if b then ''true'' else ''false''))"
| "json_ser gap ind (JNum n) = Inr (Some (show_int n))"
| "json_ser gap ind (JBigInt n) = Inl (TypeError ''Do not know how to serialize a BigInt'')"
| "json_ser gap ind (JStr s) = Inr (Some (quote s))"
| "json_ser gap ind (JError m st) = Inr (Some ''{}'')"
| "json_ser gap ind (JArr xs) =
     (case json_elems gap (ind @ gap) xs of
        Inl e \<Rightarrow> Inl e
      | Inr partial \<Rightarrow> Inr (Some (wrap ''['' '']'' gap ind partial)))"
| "json_ser gap ind (JObj ps) =
     (case json_members gap (ind @ gap) ps of
        Inl e \<Rightarrow> Inl e
      | Inr partial \<Rightarrow> Inr (Some (wrap ''{'' ''}'' gap ind partial)))"
| "json_elems gap ind [] = Inr []"
| "json_elems gap ind (x # xs) =
     (case json_ser gap ind x of
        Inl e \<Rightarrow> Inl e
      | Inr r \<Rightarrow>
          (case json_elems gap ind xs of
             Inl e \<Rightarrow> Inl e
           | Inr rs \<Rightarrow> Inr ((case r of None \<Rightarrow> ''null'' | Some s \<Rightarrow> s) # rs)))"
| "json_members gap ind [] = Inr []"
| "json_members gap ind ((k, v) # ps) =
     (case json_ser gap ind v of
        Inl e \<Rightarrow> Inl e
      | Inr r \<Rightarrow>
          (case json_members gap ind ps of
             Inl e \<Rightarrow> Inl e
           | Inr rs \<Rightarrow>
               Inr (case r of
                      None \<Rightarrow> rs
                    | Some s \<Rightarrow> (quote k @ '':'' @ (if gap = [] then [] else '' '') @ s) # rs)))"

definition JSON_stringify :: "jsval \<Rightarrow> exn + string option" where
  "JSON_stringify v = json_ser [] [] v"

text \<open>\<^verbatim>\<open>JSON.stringify(v, null, 2)\<close>\<close>

definition JSON_stringify_2 :: "jsval \<Rightarrow> exn + string option" where
  "JSON_stringify_2 v = json_ser ''  '' [] v"

text \<open>A template literal renders \<^verbatim>\<open>undefined\<close> as the word.\<close>

definition template :: "string option \<Rightarrow> string" where
  "template s = (case s of None \<Rightarrow> ''undefined'' | Some t \<Rightarrow> t)"

section \<open>The logger and its host\<close>

type_synonym Log = obj

datatype LogLevel = LInfo | LWarning | LError | LDebug

fun level_name :: "LogLevel \<Rightarrow> string" where
  "level_name LInfo = ''info''"
| "level_name LWarning = ''warning''"
| "level_name LError = ''error''"
| "level_name LDebug = ''debug''"

text \<open>
  The execution context is the host's object with \<^verbatim>\<open>waitUntil\<close>; the field of the logger
  is \<open>None\<close> when the caller passed \<^verbatim>\<open>undefined\<close>, which the code tests for.
\<close>

datatype ExecutionContext = ExecutionContext

text \<open>\<^verbatim>\<open>requestId?: string | null\<close>\<close>

datatype request_id_arg = RidUndefined | RidNull | RidString string

record LoggerArgs =
  arg_ctx :: "ExecutionContext option"
  arg_apiKey :: string
  arg_dataset :: "string option"
  arg_service :: "string option"
  arg_apiURL :: "string option"
  arg_flushAfterMs :: "int option"
  arg_flushAfterLogs :: "int option"
  arg_requestId :: request_id_arg
  arg_isLocalDev :: "bool option"

text \<open>
  The fields of the class. \<open>flushTimeout\<close> holds the handle of the pending timer,
  \<open>flushPromise\<close> the promise of the running \<^verbatim>\<open>doFlush\<close>; both are \<^verbatim>\<open>null\<close> (\<open>None\<close>)
  at construction.
\<close>

record EdgeLogger =
  ctx :: "ExecutionContext option"
  apiKey :: string
  dataset :: string
  service :: "string option"
  logs :: "Log list"
  requestId :: string
  flushTimeout :: "nat option"
  flushPromise :: "nat option"
  flushAfterMs :: int
  flushAfterLogs :: int
  apiURL :: string
  isLocalDev :: bool

text \<open>\<^verbatim>\<open>a ?? b\<close> on an optional argument.\<close>

definition nullish :: "'a option \<Rightarrow> 'a \<Rightarrow> 'a" where
  "nullish a b = (case a of None \<Rightarrow> b | Some x \<Rightarrow> x)"

text \<open>
  The constructor. \<open>uuid\<close> is what \<^verbatim>\<open>crypto.randomUUID()\<close> returns when it is called.
\<close>

definition new_EdgeLogger :: "LoggerArgs \<Rightarrow> string \<Rightarrow> EdgeLogger" where
  "new_EdgeLogger args uuid =
     \<lparr> ctx = arg_ctx args,
       apiKey = arg_apiKey args,
       dataset = nullish (arg_dataset args) ''edge-logger'',
       service = arg_service args,
       logs = [],
       requestId =
         (case arg_requestId args of
            RidString s \<Rightarrow> if s \<noteq> [] then s else uuid
          | RidNull \<Rightarrow> uuid
          | RidUndefined \<Rightarrow> uuid),
       flushTimeout = None,
       flushPromise = None,
       flushAfterMs = nullish (arg_flushAfterMs args) 10000,
       flushAfterLogs = nullish (arg_flushAfterLogs args) 100,
       apiURL = nullish (arg_apiURL args) ''https://api.axiom.co/v1'',
       isLocalDev = nullish (arg_isLocalDev args) False \<rparr>"

subsection \<open>The host: console, timers, promises, deferred work, network\<close>

record request =
  req_url :: string
  req_method :: string
  req_headers :: "(string \<times> string) list"
  req_body :: string

text \<open>
  Every call the logger makes on its host, in the order of the calls: the console, the
  timers (with the handle \<^verbatim>\<open>setTimeout\<close> returned), \<^verbatim>\<open>ctx.waitUntil\<close> (with the promise it
  is given) and \<^verbatim>\<open>fetch\<close>.
\<close>

datatype effect =
    ConsoleLog string
  | ConsoleError string
  | SetTimeout nat int
  | ClearTimeout nat
  | WaitUntil nat
  | Fetch request

datatype promise = Pending | Fulfilled | Rejected exn

text \<open>Which async function a promise is the result of.\<close>

datatype origin = FlushCall bool | DoFlushCall | TimerCallback

text \<open>
  A call of \<^verbatim>\<open>flush\<close> is suspended at \<^verbatim>\<open>await this.flushPromise\<close> before \<^verbatim>\<open>doFlush\<close>
  (with the value the field had: a promise or \<^verbatim>\<open>null\<close>), or at the \<^verbatim>\<open>await\<close> after it.
  A call of \<^verbatim>\<open>doFlush\<close> is suspended at \<^verbatim>\<open>await fetch(...)\<close> with its \<^verbatim>\<open>logsCount\<close>, at
  \<^verbatim>\<open>await res.arrayBuffer()\<close>, or at \<^verbatim>\<open>await res.text()\<close> with the status and status
  text read before it.
\<close>

datatype flush_pc = AwaitBarrier "nat option" | AwaitDoFlush nat

datatype doFlush_pc = AwaitFetch nat | AwaitArrayBuffer | AwaitText int string

text \<open>
  The state of an execution: the logger, the calls made on the host so far, the timers
  that are pending (handle and delay; a handle is truthy), the promises with their
  origin and state, and the suspended calls of \<^verbatim>\<open>flush\<close> and \<^verbatim>\<open>doFlush\<close>, each under the
  id of its own promise.
\<close>

record world =
  logger :: EdgeLogger
  effects :: "effect list"
  timers :: "(nat \<times> int) list"
  nextTimer :: nat
  promises :: "(nat \<times> origin \<times> promise) list"
  nextPromise :: nat
  flushTasks :: "(nat \<times> flush_pc) list"
  doFlushTasks :: "(nat \<times> doFlush_pc) list"

definition new_world :: "LoggerArgs \<Rightarrow> string \<Rightarrow> world" where
  "new_world args uuid =
     \<lparr> logger = new_EdgeLogger args uuid, effects = [], timers = [], nextTimer = 0,
       promises = [], nextPromise = 0, flushTasks = [], doFlushTasks = [] \<rparr>"

definition console_log :: "string \<Rightarrow> world \<Rightarrow> world" where
  "console_log s w = w\<lparr>effects := effects w @ [ConsoleLog s]\<rparr>"

definition console_error :: "string \<Rightarrow> world \<Rightarrow> world" where
  "console_error s w = w\<lparr>effects := effects w @ [ConsoleError s]\<rparr>"

definition setTimeout :: "int \<Rightarrow> world \<Rightarrow> nat \<times> world" where
  "setTimeout ms w =
     (nextTimer w,
      w\<lparr>timers := timers w @ [(nextTimer w, ms)], nextTimer := Suc (nextTimer w),
        effects := effects w @ [SetTimeout (nextTimer w) ms]\<rparr>)"

definition clearTimeout :: "nat \<Rightarrow> world \<Rightarrow> world" where
  "clearTimeout t w =
     w\<lparr>timers := AList.delete t (timers w), effects := effects w @ [ClearTimeout t]\<rparr>"

definition waitUntil :: "nat \<Rightarrow> world \<Rightarrow> world" where
  "waitUntil p w = w\<lparr>effects := effects w @ [WaitUntil p]\<rparr>"

definition fetch :: "request \<Rightarrow> world \<Rightarrow> world" where
  "fetch r w = w\<lparr>effects := effects w @ [Fetch r]\<rparr>"

definition new_promise :: "origin \<Rightarrow> promise \<Rightarrow> world \<Rightarrow> nat \<times> world" where
  "new_promise org st w =
     (nextPromise w,
      w\<lparr>promises := promises w @ [(nextPromise w, org, st)],
        nextPromise := Suc (nextPromise w)\<rparr>)"

definition settle :: "nat \<Rightarrow> promise \<Rightarrow> world \<Rightarrow> world" where
  "settle p st w = w\<lparr>promises := AList.map_entry p (\<lambda>(org, _). (org, st)) (promises w)\<rparr>"

definition promise_state :: "world \<Rightarrow> nat \<Rightarrow> promise option" where
  "promise_state w p = map_option snd (map_of (promises w) p)"

definition set_flushTimeout :: "nat option \<Rightarrow> world \<Rightarrow> world" where
  "set_flushTimeout t w = w\<lparr>logger := (logger w)\<lparr>flushTimeout := t\<rparr>\<rparr>"

definition set_flushPromise :: "nat option \<Rightarrow> world \<Rightarrow> world" where
  "set_flushPromise p w = w\<lparr>logger := (logger w)\<lparr>flushPromise := p\<rparr>\<rparr>"

text \<open>\<^verbatim>\<open>this.logs.push(log)\<close> and \<^verbatim>\<open>this.logs.splice(0, n)\<close>\<close>

definition logs_push :: "Log \<Rightarrow> world \<Rightarrow> world" where
  "logs_push l w = w\<lparr>logger := (logger w)\<lparr>logs := logs (logger w) @ [l]\<rparr>\<rparr>"

definition logs_splice :: "nat \<Rightarrow> world \<Rightarrow> world" where
  "logs_splice n w = w\<lparr>logger := (logger w)\<lparr>logs := drop n (logs (logger w))\<rparr>\<rparr>"

text \<open>The network calls made so far, and the deferred work registered so far.\<close>

fun fetches :: "effect list \<Rightarrow> request list" where
  "fetches [] = []"
| "fetches (Fetch r # es) = r # fetches es"
| "fetches (e # es) = fetches es"

fun registered :: "effect list \<Rightarrow> nat list" where
  "registered [] = []"
| "registered (WaitUntil p # es) = p # registered es"
| "registered (e # es) = registered es"

section \<open>The methods of the logger\<close>

subsection \<open>scheduleFlush\<close>

text \<open>
  Lines 118 to 133. The callback of the timer is \<open>timer_fires\<close> below.
\<close>

definition scheduleFlush :: "int \<Rightarrow> bool \<Rightarrow> world \<Rightarrow> world" where
  "scheduleFlush timeout reset w =
     (let w1 = (case flushTimeout (logger w) of
                  Some t \<Rightarrow> if reset then set_flushTimeout None (clearTimeout t w) else w
                | None \<Rightarrow> w)
      in if flushTimeout (logger w1) = None \<and> flushPromise (logger w1) = None
         then (let (t, w2) = setTimeout timeout w1 in set_flushTimeout (Some t) w2)
         else w1)"

subsection \<open>flush and doFlush\<close>

text \<open>
  Lines 135 to 179. An async function runs within the call up to its first \<^verbatim>\<open>await\<close>;
  what follows an \<^verbatim>\<open>await\<close> runs later, when the host resumes the call. Each stretch
  between two \<^verbatim>\<open>await\<close>s is one function here.

  \<^verbatim>\<open>doFlush\<close> up to its first \<^verbatim>\<open>await\<close>. It returns its promise: fulfilled when there is
  nothing to send, rejected when \<^verbatim>\<open>JSON.stringify(this.logs)\<close> throws (the call stands
  before the \<^verbatim>\<open>try\<close>), pending once \<^verbatim>\<open>fetch\<close> has been called. The text of an array is
  never \<^verbatim>\<open>undefined\<close>.
\<close>

definition doFlush :: "world \<Rightarrow> nat \<times> world" where
  "doFlush w =
     (if logs (logger w) = [] then new_promise DoFlushCall Fulfilled w
      else
        (let logsCount = length (logs (logger w)) in
         case JSON_stringify (JArr (map JObj (logs (logger w)))) of
           Inl e \<Rightarrow> new_promise DoFlushCall (Rejected e) w
         | Inr logsBody \<Rightarrow>
             (let (d, w1) = new_promise DoFlushCall Pending w;
                  w2 = fetch
                         \<lparr> req_url = apiURL (logger w) @ ''/datasets/'' @ dataset (logger w) @ ''/ingest'',
                           req_method = ''POST'',
                           req_headers = [(''Content-Type'', ''application/json''),
                                          (''Authorization'', ''Bearer '' @ apiKey (logger w))],
                           req_body = (case logsBody of Some b \<Rightarrow> b | None \<Rightarrow> []) \<rparr> w1
              in (d, w2\<lparr>doFlushTasks := doFlushTasks w2 @ [(d, AwaitFetch logsCount)]\<rparr>))))"

text \<open>
  A call of \<^verbatim>\<open>flush\<close> up to its first \<^verbatim>\<open>await\<close>. It returns the promise of the call:
  already fulfilled when the guard returns, pending when the call is suspended at
  \<^verbatim>\<open>await this.flushPromise\<close>. The \<^verbatim>\<open>await\<close> suspends the call also when the field is
  \<^verbatim>\<open>null\<close>; the field is written only when the call is resumed.
\<close>

definition flush :: "bool \<Rightarrow> world \<Rightarrow> nat \<times> world" where
  "flush skipIfInProgress w =
     (if skipIfInProgress \<and> flushPromise (logger w) \<noteq> None
      then new_promise (FlushCall skipIfInProgress) Fulfilled w
      else
        (let (p, w1) = new_promise (FlushCall skipIfInProgress) Pending w
         in (p, w1\<lparr>flushTasks := flushTasks w1 @ [(p, AwaitBarrier (flushPromise (logger w)))]\<rparr>)))"

text \<open>The end of a call of \<^verbatim>\<open>flush\<close> or \<^verbatim>\<open>doFlush\<close>: its promise is settled.\<close>

definition end_flush :: "nat \<Rightarrow> promise \<Rightarrow> world \<Rightarrow> world" where
  "end_flush p st w = settle p st (w\<lparr>flushTasks := AList.delete p (flushTasks w)\<rparr>)"

definition end_doFlush :: "nat \<Rightarrow> world \<Rightarrow> world" where
  "end_doFlush d w = settle d Fulfilled (w\<lparr>doFlushTasks := AList.delete d (doFlushTasks w)\<rparr>)"

text \<open>\<^verbatim>\<open>this.flushPromise = doFlush(); await this.flushPromise;\<close>\<close>

definition start_doFlush :: "nat \<Rightarrow> world \<Rightarrow> world" where
  "start_doFlush p w =
     (let (d, w1) = doFlush w; w2 = set_flushPromise (Some d) w1
      in w2\<lparr>flushTasks := AList.update p (AwaitDoFlush d) (flushTasks w2)\<rparr>)"

text \<open>
  The call \<open>p\<close> of \<^verbatim>\<open>flush\<close> is resumed: possible once the promise it awaits is settled
  (at once for \<^verbatim>\<open>await null\<close>). Awaiting a rejected promise throws, which rejects the
  call; otherwise the call goes on to \<^verbatim>\<open>doFlush\<close>, or to \<^verbatim>\<open>this.flushPromise = null\<close> and
  its end.
\<close>

definition resume_flush :: "nat \<Rightarrow> world \<Rightarrow> world option" where
  "resume_flush p w =
     (case map_of (flushTasks w) p of
        None \<Rightarrow> None
      | Some (AwaitBarrier None) \<Rightarrow> Some (start_doFlush p w)
      | Some (AwaitBarrier (Some q)) \<Rightarrow>
          (case promise_state w q of
             Some Fulfilled \<Rightarrow> Some (start_doFlush p w)
           | Some (Rejected e) \<Rightarrow> Some (end_flush p (Rejected e) w)
           | _ \<Rightarrow> None)
      | Some (AwaitDoFlush d) \<Rightarrow>
          (case promise_state w d of
             Some Fulfilled \<Rightarrow> Some (end_flush p Fulfilled (set_flushPromise None w))
           | Some (Rejected e) \<Rightarrow> Some (end_flush p (Rejected e) w)
           | _ \<Rightarrow> None))"

text \<open>
  The outcome of \<^verbatim>\<open>fetch\<close>: a response with its status and status text, or a thrown value
  (as the text \<^verbatim>\<open>${err}\<close> renders). \<^verbatim>\<open>res.ok\<close> holds for the statuses 200 to 299.
\<close>

datatype fetch_result = Response int string | FetchThrows string

definition ok :: "int \<Rightarrow> bool" where
  "ok status = (200 \<le> status \<and> status \<le> 299)"

text \<open>The call \<open>d\<close> of \<^verbatim>\<open>doFlush\<close> is resumed with the outcome of its \<^verbatim>\<open>fetch\<close>.\<close>

definition fetch_settles :: "nat \<Rightarrow> fetch_result \<Rightarrow> world \<Rightarrow> world option" where
  "fetch_settles d res w =
     (case map_of (doFlushTasks w) d of
        Some (AwaitFetch logsCount) \<Rightarrow>
          (case res of
             Response status statusText \<Rightarrow>
               if ok status
               then (let w1 = logs_splice logsCount w
                     in Some (w1\<lparr>doFlushTasks := AList.update d AwaitArrayBuffer (doFlushTasks w1)\<rparr>))
               else Some (w\<lparr>doFlushTasks := AList.update d (AwaitText status statusText) (doFlushTasks w)\<rparr>)
           | FetchThrows err \<Rightarrow>
               Some (end_doFlush d (console_error (''Axiom failed to ingest logs: '' @ err) w)))
      | _ \<Rightarrow> None)"

text \<open>
  The outcome of reading the body (\<^verbatim>\<open>res.arrayBuffer()\<close> or \<^verbatim>\<open>res.text()\<close>): the text, or
  a thrown value, which the \<^verbatim>\<open>catch\<close> of \<^verbatim>\<open>doFlush\<close> reports.
\<close>

datatype body_result = Body string | BodyThrows string

definition body_settles :: "nat \<Rightarrow> body_result \<Rightarrow> world \<Rightarrow> world option" where
  "body_settles d res w =
     (case map_of (doFlushTasks w) d of
        Some AwaitArrayBuffer \<Rightarrow>
          (case res of
             Body b \<Rightarrow> Some (end_doFlush d w)
           | BodyThrows err \<Rightarrow>
               Some (end_doFlush d (console_error (''Axiom failed to ingest logs: '' @ err) w)))
      | Some (AwaitText status statusText) \<Rightarrow>
          (case res of
             Body b \<Rightarrow>
               Some (end_doFlush d
                 (console_log (''Axiom failed to ingest logs: '' @ show_int status @ '' ''
                               @ statusText @ '' '' @ b) w))
           | BodyThrows err \<Rightarrow>
               Some (end_doFlush d (console_error (''Axiom failed to ingest logs: '' @ err) w)))
      | _ \<Rightarrow> None)"

text \<open>
  The timer \<open>t\<close> fires. With no execution context \<^verbatim>\<open>this.ctx.waitUntil\<close> throws before
  the callback's \<^verbatim>\<open>doFlush\<close> is called, and the exception is nobody's.
\<close>

definition timer_fires :: "nat \<Rightarrow> world \<Rightarrow> world option" where
  "timer_fires t w =
     (case map_of (timers w) t of
        None \<Rightarrow> None
      | Some ms \<Rightarrow>
          (let w1 = w\<lparr>timers := AList.delete t (timers w)\<rparr> in
           case ctx (logger w1) of
             None \<Rightarrow> Some w1
           | Some c \<Rightarrow>
               (let (p, w2) = flush True w1;
                    w3 = set_flushTimeout None w2;
                    (q, w4) = new_promise TimerCallback Fulfilled w3
                in Some (waitUntil q w4))))"

subsection \<open>The record methods\<close>

text \<open>
  Lines 58 to 112 and 181 to 207. What a call reads from outside the logger: the clock (\<^verbatim>\<open>new Date().toISOString()\<close>) and
  the trace id of the active span, if there is one.
\<close>

record call_env =
  now :: string
  traceId :: "string option"

definition opt_str :: "string option \<Rightarrow> jsval" where
  "opt_str s = (case s of None \<Rightarrow> JUndefined | Some t \<Rightarrow> JStr t)"

text \<open>
  The object literal of \<^verbatim>\<open>_log\<close>. The message is \<open>None\<close> for \<^verbatim>\<open>undefined\<close>, which
  \<^verbatim>\<open>error\<close> can pass. The caller's data are spread last.
\<close>

definition log_record :: "EdgeLogger \<Rightarrow> call_env \<Rightarrow> string option \<Rightarrow> LogLevel \<Rightarrow> obj option \<Rightarrow> Log" where
  "log_record lg env message level data =
     spread
       [(''message'', opt_str message),
        (''level'',
           (let l = (case data of None \<Rightarrow> JUndefined | Some d \<Rightarrow> obj_get d ''level'')
            in if truthy l then l else JStr (level_name level))),
        (''traceId'', opt_str (traceId env)),
        (''_time'', JStr (now env)),
        (''service'', opt_str (service lg)),
        (''requestId'', JStr (requestId lg))]
       (case data of None \<Rightarrow> [] | Some d \<Rightarrow> d)"

fun colors :: "LogLevel \<Rightarrow> string" where
  "colors LInfo = CHR 0x1B # ''[32m''"
| "colors LWarning = CHR 0x1B # ''[33m''"
| "colors LError = CHR 0x1B # ''[31m''"
| "colors LDebug = CHR 0x1B # ''[35m''"

definition grey :: string where
  "grey = CHR 0x1B # ''[90m''"

definition white :: string where
  "white = CHR 0x1B # ''[0m''"

text \<open>
  What the terminal shows for a record in local development mode: the coloured line of
  level, request id and message, and after it the data, pretty-printed, when the call
  has data and \<^verbatim>\<open>JSON.stringify\<close> can serialise them. The properties of \<^verbatim>\<open>_log\<close> in that
  mode are stated with it.
\<close>

definition local_dev_lines :: "EdgeLogger \<Rightarrow> LogLevel \<Rightarrow> string option \<Rightarrow> obj option \<Rightarrow> string list" where
  "local_dev_lines lg level message data =
     (colors level @ level_name level @ grey @ '' - '' @ requestId lg @ '' - '' @ white
      @ template message)
     # (case data of
          None \<Rightarrow> []
        | Some d \<Rightarrow>
            (case JSON_stringify_2 (JObj d) of
               Inl e \<Rightarrow> []
             | Inr s \<Rightarrow> [grey @ '' '' @ template s]))"

text \<open>
  The three parts of \<^verbatim>\<open>_log\<close> outside local development mode. First the fallback:
  without an API key or an execution context the record is printed as JSON, and
  \<^verbatim>\<open>JSON.stringify\<close> can throw.
\<close>

definition direct_send_fallback :: "Log \<Rightarrow> world \<Rightarrow> exn + world" where
  "direct_send_fallback log w =
     (if apiKey (logger w) = [] \<or> ctx (logger w) = None
      then (case JSON_stringify (JObj log) of
              Inl e \<Rightarrow> Inl e
            | Inr s \<Rightarrow> Inr (console_log (template s) w))
      else Inr w)"

text \<open>
  Then, after the push, the two triggers: at the count threshold the pending timer, if
  there is one, is reset and \<^verbatim>\<open>flush({skipIfInProgress: true})\<close> is called and handed to
  \<^verbatim>\<open>ctx.waitUntil\<close>; below it a timer is set unless there is one. \<^verbatim>\<open>this.ctx.waitUntil\<close>
  throws a TypeError when there is no context, before \<^verbatim>\<open>flush\<close> is called.
\<close>

definition count_or_timer :: "world \<Rightarrow> world \<times> exn option" where
  "count_or_timer w =
     (if flushAfterLogs (logger w) \<le> int (length (logs (logger w))) then
        (let w1 = (if flushTimeout (logger w) \<noteq> None
                   then scheduleFlush (flushAfterMs (logger w)) True w else w)
         in case ctx (logger w1) of
              None \<Rightarrow>
                (w1, Some (TypeError (''Cannot read properties of undefined (reading ''
                                      @ [CHR 0x27] @ ''waitUntil'' @ [CHR 0x27] @ '')'')))
            | Some c \<Rightarrow> (let (p, w2) = flush True w1 in (waitUntil p w2, None)))
      else (scheduleFlush (flushAfterMs (logger w)) False w, None))"

text \<open>
  \<^verbatim>\<open>_log\<close>. The function is async and awaits nothing: it runs to its end within the call
  and returns a promise nobody reads, rejected (\<open>Some e\<close>) when an exception left the
  body. Everything done before the exception stays done.
\<close>

definition underscore_log ::
  "call_env \<Rightarrow> string option \<Rightarrow> LogLevel \<Rightarrow> obj option \<Rightarrow> world \<Rightarrow> world \<times> exn option" where
  "underscore_log env message level data w =
     (if isLocalDev (logger w) then
        (let w1 = console_log (colors level @ level_name level @ grey @ '' - ''
                               @ requestId (logger w) @ '' - '' @ white @ template message) w
         in case data of
              None \<Rightarrow> (w1, None)
            | Some d \<Rightarrow>
                (case JSON_stringify_2 (JObj d) of
                   Inl e \<Rightarrow> (w1, Some e)
                 | Inr s \<Rightarrow> (console_log (grey @ '' '' @ template s) w1, None)))
      else
        (let log = log_record (logger w) env message level data in
         case direct_send_fallback log w of
           Inl e \<Rightarrow> (w, Some e)
         | Inr w1 \<Rightarrow> count_or_timer (logs_push log w1)))"

definition log :: "string \<Rightarrow> obj option \<Rightarrow> call_env \<Rightarrow> world \<Rightarrow> world" where
  "log msg data env w = fst (underscore_log env (Some msg) LInfo data w)"

definition info :: "string \<Rightarrow> obj option \<Rightarrow> call_env \<Rightarrow> world \<Rightarrow> world" where
  "info msg data env w = fst (underscore_log env (Some msg) LInfo data w)"

definition warn :: "string \<Rightarrow> obj option \<Rightarrow> call_env \<Rightarrow> world \<Rightarrow> world" where
  "warn msg data env w = fst (underscore_log env (Some msg) LWarning data w)"

text \<open>
  \<^verbatim>\<open>error\<close> is not async: an exception of \<^verbatim>\<open>JSON.stringify(msg)\<close> is thrown to the caller
  (\<open>Inl\<close>), before \<^verbatim>\<open>_log\<close> is called.
\<close>

definition error :: "jsval \<Rightarrow> obj option \<Rightarrow> call_env \<Rightarrow> world \<Rightarrow> exn + world" where
  "error msg data env w =
     (case (case msg of
              JError description stack \<Rightarrow>
                Inr (Some (description @
                           (case stack of
                              Some st \<Rightarrow> if st \<noteq> [] then '': '' @ st else []
                            | None \<Rightarrow> [])))
            | JStr s \<Rightarrow> Inr (Some s)
            | _ \<Rightarrow> JSON_stringify msg) of
        Inl e \<Rightarrow> Inl e
      | Inr m \<Rightarrow> Inr (fst (underscore_log env m LError data w)))"

definition debug :: "string \<Rightarrow> obj option \<Rightarrow> call_env \<Rightarrow> world \<Rightarrow> world" where
  "debug msg data env w = fst (underscore_log env (Some msg) LDebug data w)"

section \<open>Executions\<close>

text \<open>
  JavaScript runs one piece of code at a time, from a call or a resumption to the next
  \<^verbatim>\<open>await\<close> or the end. An execution of the logger is a sequence of such pieces: the
  calls of the application, and the resumptions the host makes. \<open>step\<close> is \<open>None\<close>
  when the piece cannot run in the state (no such timer or suspended call, an awaited
  promise still pending), and when \<^verbatim>\<open>error\<close> throws to the application.
\<close>

datatype event =
    CallLog string "obj option" call_env
  | CallInfo string "obj option" call_env
  | CallWarn string "obj option" call_env
  | CallError jsval "obj option" call_env
  | CallDebug string "obj option" call_env
  | CallFlush bool
  | TimerFires nat
  | ResumeFlush nat
  | FetchSettles nat fetch_result
  | BodySettles nat body_result

fun step :: "event \<Rightarrow> world \<Rightarrow> world option" where
  "step (CallLog msg data env) w = Some (log msg data env w)"
| "step (CallInfo msg data env) w = Some (info msg data env w)"
| "step (CallWarn msg data env) w = Some (warn msg data env w)"
| "step (CallError msg data env) w =
     (case error msg data env w of Inl e \<Rightarrow> None | Inr w' \<Rightarrow> Some w')"
| "step (CallDebug msg data env) w = Some (debug msg data env w)"
| "step (CallFlush skipIfInProgress) w = Some (snd (flush skipIfInProgress w))"
| "step (TimerFires t) w = timer_fires t w"
| "step (ResumeFlush p) w = resume_flush p w"
| "step (FetchSettles d res) w = fetch_settles d res w"
| "step (BodySettles d res) w = body_settles d res w"

fun run :: "event list \<Rightarrow> world \<Rightarrow> world option" where
  "run [] w = Some w"
| "run (e # es) w = (case step e w of None \<Rightarrow> None | Some w' \<Rightarrow> run es w')"

fun is_record_call :: "event \<Rightarrow> bool" where
  "is_record_call (CallLog msg data env) = True"
| "is_record_call (CallInfo msg data env) = True"
| "is_record_call (CallWarn msg data env) = True"
| "is_record_call (CallError msg data env) = True"
| "is_record_call (CallDebug msg data env) = True"
| "is_record_call e = False"

text \<open>
  Promise ids are given in order: in a state of an execution every id in use is below
  the next one.
\<close>

definition wf_world :: "world \<Rightarrow> bool" where
  "wf_world w =
     (list_all (\<lambda>k. k < nextPromise w) (map fst (promises w))
      \<and> list_all (\<lambda>k. k < nextPromise w) (map fst (flushTasks w))
      \<and> list_all (\<lambda>k. k < nextPromise w) (map fst (doFlushTasks w)))"

text \<open>
  The pieces that carry a delivery under way to its end: the outcome of \<^verbatim>\<open>fetch\<close>, the
  outcome of reading the body, and the resumption of a call of \<^verbatim>\<open>flush\<close> that awaits its
  \<^verbatim>\<open>doFlush\<close>.
\<close>

fun is_completion :: "event \<Rightarrow> world \<Rightarrow> bool" where
  "is_completion (FetchSettles d res) w = True"
| "is_completion (BodySettles d res) w = True"
| "is_completion (ResumeFlush p) w =
     (case map_of (flushTasks w) p of Some (AwaitDoFlush d) \<Rightarrow> True | _ \<Rightarrow> False)"
| "is_completion e w = False"

section \<open>The level rule as the specification words it\<close>

text \<open>
  The specification names the rule \<^verbatim>\<open>fields.level ?? level\<close>: the argument is taken when
  the property is \<^verbatim>\<open>undefined\<close> or \<^verbatim>\<open>null\<close>. It is stated here to be compared with the
  level of the record \<^const>\<open>log_record\<close> builds.
\<close>

definition nullish_coalesce :: "jsval \<Rightarrow> jsval \<Rightarrow> jsval" where
  "nullish_coalesce a b = (if a = JUndefined \<or> a = JNull then b else a)"

definition spec_level :: "obj option \<Rightarrow> LogLevel \<Rightarrow> jsval" where
  "spec_level data level =
     nullish_coalesce (case data of None \<Rightarrow> JUndefined | Some d \<Rightarrow> obj_get d ''level'')
       (JStr (level_name level))"

section \<open>Example configurations\<close>

definition ex_args :: LoggerArgs where
  "ex_args =
     \<lparr> arg_ctx = Some ExecutionContext, arg_apiKey = ''key'', arg_dataset = None,
       arg_service = None, arg_apiURL = None, arg_flushAfterMs = None,
       arg_flushAfterLogs = Some 2, arg_requestId = RidString ''req'',
       arg_isLocalDev = None \<rparr>"

definition ex_env :: call_env where
  "ex_env = \<lparr> now = ''2024-01-01T00:00:00.000Z'', traceId = None \<rparr>"

text \<open>A logger with the count threshold 2, new, and after \<^verbatim>\<open>info("a")\<close>.\<close>

definition ex_world :: world where
  "ex_world = new_world ex_args ''uuid''"

definition ex_world_a :: world where
  "ex_world_a = info ''a'' None ex_env ex_world"

text \<open>The same logger in local development mode, and with an empty API key.\<close>

definition ex_world_local :: world where
  "ex_world_local = new_world (ex_args\<lparr>arg_isLocalDev := Some True\<rparr>) ''uuid''"

definition ex_world_nokey :: world where
  "ex_world_nokey = new_world (ex_args\<lparr>arg_apiKey := []\<rparr>) ''uuid''"

text \<open>
  The logger of \<^const>\<open>ex_world\<close> with a delivery in flight: after \<^verbatim>\<open>info("a")\<close> and
  \<^verbatim>\<open>info("b")\<close> the count threshold has started \<^verbatim>\<open>flush\<close> (promise 0), which, resumed,
  has called \<^verbatim>\<open>doFlush\<close> (promise 1) and \<^verbatim>\<open>fetch\<close>. Then the same after the response
  500, and after \<^verbatim>\<open>fetch\<close> has thrown.
\<close>

definition the_world :: "world option \<Rightarrow> world" where
  "the_world r = (case r of Some w \<Rightarrow> w | None \<Rightarrow> ex_world)"

definition ex_world_inflight :: world where
  "ex_world_inflight =
     the_world (run [CallInfo ''a'' None ex_env, CallInfo ''b'' None ex_env, ResumeFlush 0] ex_world)"

definition ex_world_500 :: world where
  "ex_world_500 =
     the_world (fetch_settles 1 (Response 500 ''Internal Server Error'') ex_world_inflight)"

definition ex_world_thrown :: world where
  "ex_world_thrown = the_world (fetch_settles 1 (FetchThrows ''TypeError: fetch failed'') ex_world_inflight)"

text \<open>And after the response 200, the body not yet read.\<close>

definition ex_world_200 :: world where
  "ex_world_200 = the_world (fetch_settles 1 (Response 200 ''OK'') ex_world_inflight)"

text \<open>
  An execution with two calls of \<^verbatim>\<open>flush\<close> in flight at once. With the count threshold
  2, \<^verbatim>\<open>info("a")\<close>, \<^verbatim>\<open>info("b")\<close> and \<^verbatim>\<open>info("c")\<close> are called one after the other with no
  \<^verbatim>\<open>await\<close> between them: the second and the third each call
  \<^verbatim>\<open>flush({skipIfInProgress: true})\<close> (promises 0 and 1), and both calls pass the guard,
  since \<^verbatim>\<open>flushPromise\<close> is still \<^verbatim>\<open>null\<close>. Resumed, each calls \<^verbatim>\<open>doFlush\<close> (promises 2
  and 3). Then \<^verbatim>\<open>info("d")\<close> is called, and both requests are answered with 200.
\<close>

definition overlap_started :: "event list" where
  "overlap_started =
     [CallInfo ''a'' None ex_env, CallInfo ''b'' None ex_env, CallInfo ''c'' None ex_env,
      ResumeFlush 0, ResumeFlush 1]"

definition overlap_answered :: "event list" where
  "overlap_answered =
     overlap_started @
     [CallInfo ''d'' None ex_env,
      FetchSettles 2 (Response 200 ''OK''), FetchSettles 3 (Response 200 ''OK'')]"

text \<open>
  Two calls \<^verbatim>\<open>flush({skipIfInProgress: true})\<close> one after the other with no \<^verbatim>\<open>await\<close>
  between them (promises 0 and 1), and then their resumptions.
\<close>

definition same_tick_flushes :: "event list" where
  "same_tick_flushes = [CallFlush True, CallFlush True, ResumeFlush 0, ResumeFlush 1]"

text \<open>A logger with no execution context and the count threshold 1.\<close>

definition ex_world_noctx :: world where
  "ex_world_noctx =
     new_world (ex_args\<lparr>arg_ctx := None, arg_flushAfterLogs := Some 1\<rparr>) ''uuid''"

definition ex_record :: "string \<Rightarrow> Log" where
  "ex_record msg = log_record (logger ex_world) ex_env (Some msg) LInfo None"

definition json_text :: "Log list \<Rightarrow> string" where
  "json_text ls = (case JSON_stringify (JArr (map JObj ls)) of Inr (Some b) \<Rightarrow> b | _ \<Rightarrow> [])"

section \<open>Properties of the record formatter and the constructor\<close>

lemmas host_defs = console_log_def console_error_def setTimeout_def clearTimeout_def
  waitUntil_def fetch_def new_promise_def settle_def set_flushTimeout_def
  set_flushPromise_def logs_push_def logs_splice_def

lemmas ex_defs = ex_world_def ex_world_a_def ex_world_local_def ex_world_nokey_def
  ex_world_noctx_def
  new_world_def new_EdgeLogger_def ex_args_def ex_env_def nullish_def

lemma map_of_spread_absent: "k \<notin> fst ` set d \<Longrightarrow> map_of (spread t d) k = map_of t k"
  by (induction t d rule: spread.induct) (auto simp: update_conv')

lemma map_of_spread_present:
  "distinct (map fst d) \<Longrightarrow> map_of d k = Some v \<Longrightarrow> map_of (spread t d) k = Some v"
proof (induction t d rule: spread.induct)
  case (1 target)
  then show ?case by simp
next
  case (2 target k' v' ps)
  show ?case
  proof (cases "k' = k")
    case True
    with 2 have "v' = v" and "k \<notin> fst ` set ps" by auto
    then show ?thesis using True by (simp add: map_of_spread_absent update_conv')
  next
    case False
    with 2 show ?thesis by simp
  qed
qed

lemma level_None: "obj_get (log_record lg env m level None) ''level'' = JStr (level_name level)"
  by (simp add: log_record_def obj_get_def)

lemma level_Some:
  assumes "distinct (map fst d)"
  shows "obj_get (log_record lg env m level (Some d)) ''level''
           = (case map_of d ''level'' of Some v \<Rightarrow> v | None \<Rightarrow> JStr (level_name level))"
proof (cases "map_of d ''level''")
  case None
  then have "''level'' \<notin> fst ` set d" by (simp add: map_of_eq_None_iff)
  then show ?thesis using None
    by (simp add: log_record_def obj_get_def map_of_spread_absent)
next
  case (Some v)
  then show ?thesis using assms
    by (simp add: log_record_def obj_get_def map_of_spread_present)
qed

lemma level_absent:
  assumes "case data of None \<Rightarrow> True | Some d \<Rightarrow> ''level'' \<notin> fst ` set d"
  shows "obj_get (log_record lg env m level data) ''level'' = JStr (level_name level)"
proof (cases data)
  case None
  then show ?thesis by (simp add: level_None)
next
  case (Some d)
  with assms have "''level'' \<notin> fst ` set d" by simp
  then show ?thesis using Some
    by (simp add: log_record_def obj_get_def map_of_spread_absent
        map_of_eq_None_iff [THEN iffD2])
qed


lemma spec_level_Some:
  "spec_level (Some d) level =
     (case map_of d ''level'' of
        None \<Rightarrow> JStr (level_name level)
      | Some v \<Rightarrow> if v = JUndefined \<or> v = JNull then JStr (level_name level) else v)"
  by (simp add: spec_level_def nullish_coalesce_def obj_get_def split: option.splits)

text \<open>
  C5, as the code has it. The record's \<^verbatim>\<open>level\<close> is the explicit level argument when the
  data are absent or have no \<^verbatim>\<open>level\<close> property, and the value of that property whenever
  the data have one, whatever the value: the spread writes it last. This is the rule
  \<^verbatim>\<open>fields.level ?? level\<close> of the specification except where the property is there with
  the value \<^verbatim>\<open>null\<close> or \<^verbatim>\<open>undefined\<close>. The data are an object: their keys are distinct.
\<close>

theorem level_is_own_property_or_argument:
  "obj_get (log_record lg env m level None) ''level'' = JStr (level_name level)
   \<and> (distinct (map fst d) \<longrightarrow>
        obj_get (log_record lg env m level (Some d)) ''level''
          = (case map_of d ''level'' of Some v \<Rightarrow> v | None \<Rightarrow> JStr (level_name level)))
   \<and> (distinct (map fst d) \<and> map_of d ''level'' \<noteq> Some JNull
        \<and> map_of d ''level'' \<noteq> Some JUndefined \<longrightarrow>
        obj_get (log_record lg env m level (Some d)) ''level'' = spec_level (Some d) level)"
proof (intro conjI impI)
  show "obj_get (log_record lg env m level None) ''level'' = JStr (level_name level)"
    by (rule level_None)
next
  assume "distinct (map fst d)"
  then show "obj_get (log_record lg env m level (Some d)) ''level''
          = (case map_of d ''level'' of Some v \<Rightarrow> v | None \<Rightarrow> JStr (level_name level))"
    by (rule level_Some)
next
  assume a: "distinct (map fst d) \<and> map_of d ''level'' \<noteq> Some JNull
             \<and> map_of d ''level'' \<noteq> Some JUndefined"
  then have "obj_get (log_record lg env m level (Some d)) ''level''
          = (case map_of d ''level'' of Some v \<Rightarrow> v | None \<Rightarrow> JStr (level_name level))"
    by (simp add: level_Some)
  also have "\<dots> = spec_level (Some d) level"
    using a by (auto simp: spec_level_Some split: option.splits)
  finally show "obj_get (log_record lg env m level (Some d)) ''level'' = spec_level (Some d) level" .
qed

text \<open>The theorem at \<^verbatim>\<open>info("x", {level: "custom"})\<close>.\<close>

theorem level_is_own_property_or_argument_witness:
  "distinct (map fst [(''level'', JStr ''custom'')])
   \<and> map_of [(''level'', JStr ''custom'')] ''level'' \<noteq> Some JNull
   \<and> map_of [(''level'', JStr ''custom'')] ''level'' \<noteq> Some JUndefined
   \<and> obj_get (log_record (logger ex_world) ex_env (Some ''x'') LInfo
               (Some [(''level'', JStr ''custom'')])) ''level'' = JStr ''custom''
   \<and> spec_level (Some [(''level'', JStr ''custom'')]) LInfo = JStr ''custom''"
  using level_is_own_property_or_argument
    [of "logger ex_world" ex_env "Some ''x''" LInfo "[(''level'', JStr ''custom'')]"]
  by (simp add: spec_level_Some)

text \<open>
  C5 as stated fails at \<^verbatim>\<open>info("x", {level: null})\<close>: the record's level is \<^verbatim>\<open>null\<close>, where
  \<^verbatim>\<open>fields.level ?? level\<close> is \<^verbatim>\<open>"info"\<close>.
\<close>

theorem level_null_counterexample:
  "obj_get (log_record (logger ex_world) ex_env (Some ''x'') LInfo
            (Some [(''level'', JNull)])) ''level'' = JNull
   \<and> spec_level (Some [(''level'', JNull)]) LInfo = JStr ''info''
   \<and> obj_get (log_record (logger ex_world) ex_env (Some ''x'') LInfo
              (Some [(''level'', JNull)])) ''level''
       \<noteq> spec_level (Some [(''level'', JNull)]) LInfo"
  by (simp add: log_record_def obj_get_def spec_level_def nullish_coalesce_def)

text \<open>
  C9. The constructor takes the request id of the arguments when it is a non-empty
  string; for the empty string, \<^verbatim>\<open>null\<close> and \<^verbatim>\<open>undefined\<close> it takes the value of
  \<^verbatim>\<open>crypto.randomUUID()\<close>.
\<close>

theorem requestId_of_constructor:
  "(\<forall>s. arg_requestId args = RidString s \<and> s \<noteq> [] \<longrightarrow>
        requestId (new_EdgeLogger args uuid) = s)
   \<and> (arg_requestId args = RidString [] \<or> arg_requestId args = RidNull
        \<or> arg_requestId args = RidUndefined \<longrightarrow>
        requestId (new_EdgeLogger args uuid) = uuid)"
  by (auto simp: new_EdgeLogger_def)

theorem requestId_of_constructor_witness:
  "requestId (new_EdgeLogger ex_args ''uuid'') = ''req''
   \<and> requestId (new_EdgeLogger (ex_args\<lparr>arg_requestId := RidString []\<rparr>) ''uuid'') = ''uuid''"
  using requestId_of_constructor [of ex_args "''uuid''"]
    requestId_of_constructor [of "ex_args\<lparr>arg_requestId := RidString []\<rparr>" "''uuid''"]
  by (simp add: ex_args_def)

section \<open>The error method\<close>




section \<open>Local development mode\<close>

lemma fetches_append: "fetches (es @ fs) = fetches es @ fetches fs"
  by (induction es rule: fetches.induct) auto

lemma registered_append: "registered (es @ fs) = registered es @ registered fs"
  by (induction es rule: registered.induct) auto

lemma fetches_ConsoleLog: "fetches (map ConsoleLog ls) = []"
  by (induction ls) auto

lemma registered_ConsoleLog: "registered (map ConsoleLog ls) = []"
  by (induction ls) auto

lemma underscore_log_local:
  assumes "isLocalDev (logger w)"
  shows "\<exists>rest. fst (underscore_log env m level data w) =
           w\<lparr>effects := effects w @ map ConsoleLog
              ((colors level @ level_name level @ grey @ '' - '' @ requestId (logger w)
                @ '' - '' @ white @ template m) # rest)\<rparr>"
proof (cases data)
  case None
  with assms show ?thesis
    by (auto simp: underscore_log_def console_log_def intro: exI [of _ "[]"])
next
  case (Some d)
  show ?thesis
  proof (cases "JSON_stringify_2 (JObj d)")
    case (Inl e)
    with assms Some show ?thesis
      by (auto simp: underscore_log_def console_log_def intro: exI [of _ "[]"])
  next
    case (Inr s)
    with assms Some show ?thesis
      by (auto simp: underscore_log_def console_log_def
          intro: exI [of _ "[grey @ '' '' @ template s]"])
  qed
qed

text \<open>Every record method that returns has run \<^verbatim>\<open>_log\<close> once.\<close>

lemma record_call_cases:
  assumes "is_record_call e" and "step e w = Some w'"
  shows "\<exists>env m level data. w' = fst (underscore_log env m level data w)"
  using assms
  by (cases e) (auto simp: log_def info_def warn_def debug_def error_def split: sum.splits)

lemma underscore_log_local_lines:
  assumes "isLocalDev (logger w)"
  shows "fst (underscore_log env m level data w) =
           w\<lparr>effects := effects w @ map ConsoleLog (local_dev_lines (logger w) level m data)\<rparr>"
  using assms
  by (simp add: underscore_log_def local_dev_lines_def console_log_def Let_def
      split: option.splits sum.splits)

text \<open>
  C6, as the code has it. In local development mode \<^verbatim>\<open>_log\<close> changes nothing but the
  console, where it writes the lines of its own record: the coloured line of its level, the request id
  and its message, and the data of the call pretty-printed. So does each record method
  with its level and message: \<^verbatim>\<open>log\<close> and \<^verbatim>\<open>info\<close> with \<^verbatim>\<open>info\<close>, \<^verbatim>\<open>warn\<close> with \<^verbatim>\<open>warning\<close>,
  \<^verbatim>\<open>debug\<close> with \<^verbatim>\<open>debug\<close>, and \<^verbatim>\<open>error\<close>, when it does not throw, with \<^verbatim>\<open>error\<close> and the
  message it renders. For every call of a record method that returns, the buffer and
  both handles of the logger are as before, no timer is set, no call of \<^verbatim>\<open>flush\<close> is
  started or registered, and no request is sent, whatever the state.
\<close>

theorem local_dev_only_prints:
  assumes "isLocalDev (logger w)"
  shows "fst (underscore_log env m level data w) =
           w\<lparr>effects := effects w @ map ConsoleLog (local_dev_lines (logger w) level m data)\<rparr>
   \<and> log msg data env w =
        w\<lparr>effects := effects w @ map ConsoleLog (local_dev_lines (logger w) LInfo (Some msg) data)\<rparr>
   \<and> info msg data env w =
        w\<lparr>effects := effects w @ map ConsoleLog (local_dev_lines (logger w) LInfo (Some msg) data)\<rparr>
   \<and> warn msg data env w =
        w\<lparr>effects := effects w @ map ConsoleLog (local_dev_lines (logger w) LWarning (Some msg) data)\<rparr>
   \<and> debug msg data env w =
        w\<lparr>effects := effects w @ map ConsoleLog (local_dev_lines (logger w) LDebug (Some msg) data)\<rparr>
   \<and> error (JStr msg) data env w =
        Inr (w\<lparr>effects := effects w
                 @ map ConsoleLog (local_dev_lines (logger w) LError (Some msg) data)\<rparr>)
   \<and> error (JError description stack) data env w =
        Inr (w\<lparr>effects := effects w
                 @ map ConsoleLog (local_dev_lines (logger w) LError
                     (Some (description @
                            (case stack of
                               Some st \<Rightarrow> if st \<noteq> [] then '': '' @ st else []
                             | None \<Rightarrow> [])))
                     data)\<rparr>)
   \<and> ((\<forall>d st. v \<noteq> JError d st) \<and> (\<forall>s. v \<noteq> JStr s) \<longrightarrow>
        error v data env w =
          (case JSON_stringify v of
             Inl x \<Rightarrow> Inl x
           | Inr t \<Rightarrow>
               Inr (w\<lparr>effects := effects w
                        @ map ConsoleLog (local_dev_lines (logger w) LError t data)\<rparr>)))
   \<and> (is_record_call e \<and> step e w = Some w' \<longrightarrow>
        (\<exists>lines. lines \<noteq> [] \<and> w' = w\<lparr>effects := effects w @ map ConsoleLog lines\<rparr>)
        \<and> logger w' = logger w \<and> timers w' = timers w
        \<and> flushTasks w' = flushTasks w \<and> doFlushTasks w' = doFlushTasks w
        \<and> registered (effects w') = registered (effects w)
        \<and> fetches (effects w') = fetches (effects w))"
proof -
  note l = underscore_log_local_lines [OF assms]
  have other: "(\<forall>d st. v \<noteq> JError d st) \<and> (\<forall>s. v \<noteq> JStr s) \<longrightarrow>
        error v data env w =
          (case JSON_stringify v of
             Inl x \<Rightarrow> Inl x
           | Inr t \<Rightarrow>
               Inr (w\<lparr>effects := effects w
                        @ map ConsoleLog (local_dev_lines (logger w) LError t data)\<rparr>))"
    by (cases v) (simp_all add: error_def l split: sum.splits)
  have frame: "is_record_call e \<and> step e w = Some w' \<longrightarrow>
        (\<exists>lines. lines \<noteq> [] \<and> w' = w\<lparr>effects := effects w @ map ConsoleLog lines\<rparr>)
        \<and> logger w' = logger w \<and> timers w' = timers w
        \<and> flushTasks w' = flushTasks w \<and> doFlushTasks w' = doFlushTasks w
        \<and> registered (effects w') = registered (effects w)
        \<and> fetches (effects w') = fetches (effects w)"
  proof
    assume a: "is_record_call e \<and> step e w = Some w'"
    then obtain env' m' level' data'
      where "w' = fst (underscore_log env' m' level' data' w)"
      using record_call_cases by blast
    then have eq: "w' = w\<lparr>effects := effects w
                      @ map ConsoleLog (local_dev_lines (logger w) level' m' data')\<rparr>"
      by (simp add: l)
    have ne: "local_dev_lines (logger w) level' m' data' \<noteq> []"
      by (simp add: local_dev_lines_def)
    have "registered (effects w') = registered (effects w)"
      by (subst eq) (simp add: registered_append registered_ConsoleLog)
    moreover have "fetches (effects w') = fetches (effects w)"
      by (subst eq) (simp add: fetches_append fetches_ConsoleLog)
    moreover have "logger w' = logger w" "timers w' = timers w"
      "flushTasks w' = flushTasks w" "doFlushTasks w' = doFlushTasks w"
      by (subst eq, simp)+
    ultimately show "(\<exists>lines. lines \<noteq> [] \<and> w' = w\<lparr>effects := effects w @ map ConsoleLog lines\<rparr>)
        \<and> logger w' = logger w \<and> timers w' = timers w
        \<and> flushTasks w' = flushTasks w \<and> doFlushTasks w' = doFlushTasks w
        \<and> registered (effects w') = registered (effects w)
        \<and> fetches (effects w') = fetches (effects w)"
      using eq ne by blast
  qed
  show ?thesis
    using other frame by (simp add: l log_def info_def warn_def debug_def error_def)
qed

text \<open>
  The theorem at \<^verbatim>\<open>warn("a", {foo: "bar"})\<close> and \<^verbatim>\<open>error(42)\<close> on a new logger in local
  development mode.
\<close>

theorem local_dev_only_prints_witness:
  "isLocalDev (logger ex_world_local)
   \<and> warn ''a'' (Some [(''foo'', JStr ''bar'')]) ex_env ex_world_local =
       ex_world_local\<lparr>effects := effects ex_world_local
          @ map ConsoleLog (local_dev_lines (logger ex_world_local) LWarning (Some ''a'')
                              (Some [(''foo'', JStr ''bar'')]))\<rparr>
   \<and> take 1 (local_dev_lines (logger ex_world_local) LWarning (Some ''a'')
                (Some [(''foo'', JStr ''bar'')]))
       = [CHR 0x1B # ''[33mwarning'' @ CHR 0x1B # ''[90m - req - '' @ CHR 0x1B # ''[0ma'']
   \<and> length (local_dev_lines (logger ex_world_local) LWarning (Some ''a'')
                (Some [(''foo'', JStr ''bar'')])) = 2
   \<and> (\<forall>d st. JNum 42 \<noteq> JError d st) \<and> (\<forall>s. JNum 42 \<noteq> JStr s)
   \<and> JSON_stringify (JNum 42) = Inr (Some ''42'')
   \<and> error (JNum 42) None ex_env ex_world_local =
       Inr (ex_world_local\<lparr>effects := effects ex_world_local
              @ map ConsoleLog (local_dev_lines (logger ex_world_local) LError (Some ''42'') None)\<rparr>)
   \<and> is_record_call (CallWarn ''a'' None ex_env)
   \<and> step (CallWarn ''a'' None ex_env) ex_world_local
       = Some (warn ''a'' None ex_env ex_world_local)
   \<and> logger (warn ''a'' None ex_env ex_world_local) = logger ex_world_local
   \<and> timers (warn ''a'' None ex_env ex_world_local) = timers ex_world_local
   \<and> fetches (effects (warn ''a'' None ex_env ex_world_local)) = fetches (effects ex_world_local)
   \<and> registered (effects (warn ''a'' None ex_env ex_world_local))
       = registered (effects ex_world_local)"
proof -
  have h1: "isLocalDev (logger ex_world_local)"
    by code_simp
  have h2: "is_record_call (CallWarn ''a'' None ex_env)"
    "step (CallWarn ''a'' None ex_env) ex_world_local
       = Some (warn ''a'' None ex_env ex_world_local)"
    by simp_all
  have h3: "(\<forall>d st. JNum 42 \<noteq> JError d st) \<and> (\<forall>s. JNum 42 \<noteq> JStr s)"
    by simp
  have h4: "JSON_stringify (JNum 42) = Inr (Some ''42'')"
    by code_simp
  have v: "take 1 (local_dev_lines (logger ex_world_local) LWarning (Some ''a'')
                (Some [(''foo'', JStr ''bar'')]))
       = [CHR 0x1B # ''[33mwarning'' @ CHR 0x1B # ''[90m - req - '' @ CHR 0x1B # ''[0ma'']"
    "length (local_dev_lines (logger ex_world_local) LWarning (Some ''a'')
                (Some [(''foo'', JStr ''bar'')])) = 2"
    by code_simp+
  from local_dev_only_prints [OF h1, where env = ex_env and msg = "''a''"
         and data = "Some [(''foo'', JStr ''bar'')]" and v = "JNum 42"
         and e = "CallWarn ''a'' None ex_env" and w' = "warn ''a'' None ex_env ex_world_local"]
    local_dev_only_prints [OF h1, where env = ex_env and msg = "''a''"
         and data = None and v = "JNum 42"
         and e = "CallWarn ''a'' None ex_env" and w' = "warn ''a'' None ex_env ex_world_local"]
    h1 h2 h3 h4 v
  show ?thesis by (intro conjI) (blast | simp)+
qed

text \<open>
  C6 as stated fails at \<^verbatim>\<open>error(10n)\<close> in local development mode: \<^verbatim>\<open>JSON.stringify\<close> throws
  before \<^verbatim>\<open>_log\<close> is called, and nothing is written. And at \<^verbatim>\<open>info("x", {n: 10n})\<close> the
  coloured line is all that is written: \<^verbatim>\<open>JSON.stringify(data, null, 2)\<close> throws, and
  the promise of \<^verbatim>\<open>_log\<close> is rejected.
\<close>

theorem local_dev_bigint_counterexample:
  "isLocalDev (logger ex_world_local)
   \<and> error (JBigInt 10) None ex_env ex_world_local
       = Inl (TypeError ''Do not know how to serialize a BigInt'')
   \<and> step (CallError (JBigInt 10) None ex_env) ex_world_local = None
   \<and> map_prod
        (\<lambda>w. map (\<lambda>e. e = ConsoleLog (CHR 0x1B # ''[32minfo'' @ CHR 0x1B # ''[90m - req - ''
                                          @ CHR 0x1B # ''[0mx''))
                 (effects w))
        (\<lambda>r. r = Some (TypeError ''Do not know how to serialize a BigInt''))
        (underscore_log ex_env (Some ''x'') LInfo (Some [(''n'', JBigInt 10)]) ex_world_local)
      = ([True], True)"
  by code_simp

section \<open>The triggers\<close>

lemma scheduleFlush_frame [simp]:
  "logs (logger (scheduleFlush ms r w)) = logs (logger w)"
  "ctx (logger (scheduleFlush ms r w)) = ctx (logger w)"
  "flushPromise (logger (scheduleFlush ms r w)) = flushPromise (logger w)"
  "promises (scheduleFlush ms r w) = promises w"
  "nextPromise (scheduleFlush ms r w) = nextPromise w"
  "flushTasks (scheduleFlush ms r w) = flushTasks w"
  "doFlushTasks (scheduleFlush ms r w) = doFlushTasks w"
  by (simp_all add: scheduleFlush_def host_defs Let_def split: option.splits prod.splits)

lemma effects_scheduleFlush: "\<exists>rest. effects (scheduleFlush ms r w) = effects w @ rest"
  by (simp add: scheduleFlush_def host_defs Let_def split: option.splits prod.splits)

lemma scheduleFlush_reset_Some:
  "flushTimeout (logger w) = Some t \<Longrightarrow>
   scheduleFlush ms True w =
     (if flushPromise (logger w) = None
      then w\<lparr>logger := (logger w)\<lparr>flushTimeout := Some (nextTimer w)\<rparr>,
             timers := AList.delete t (timers w) @ [(nextTimer w, ms)],
             nextTimer := Suc (nextTimer w),
             effects := effects w @ [ClearTimeout t, SetTimeout (nextTimer w) ms]\<rparr>
      else w\<lparr>logger := (logger w)\<lparr>flushTimeout := None\<rparr>,
             timers := AList.delete t (timers w),
             effects := effects w @ [ClearTimeout t]\<rparr>)"
  by (simp add: scheduleFlush_def host_defs Let_def)

lemma flush_True:
  "flush True w =
     (nextPromise w,
      w\<lparr>promises := promises w @ [(nextPromise w, FlushCall True,
                                    if flushPromise (logger w) = None then Pending else Fulfilled)],
        nextPromise := Suc (nextPromise w),
        flushTasks := flushTasks w @
           (if flushPromise (logger w) = None then [(nextPromise w, AwaitBarrier None)] else [])\<rparr>)"
  by (simp add: flush_def host_defs Let_def)

lemma flush_frame [simp]:
  "fst (flush b w) = nextPromise w"
  "logger (snd (flush b w)) = logger w"
  "effects (snd (flush b w)) = effects w"
  "timers (snd (flush b w)) = timers w"
  "doFlushTasks (snd (flush b w)) = doFlushTasks w"
  "nextPromise (snd (flush b w)) = Suc (nextPromise w)"
  by (simp_all add: flush_def host_defs Let_def)

lemma count_or_timer_logs [simp]:
  "logs (logger (fst (count_or_timer w))) = logs (logger w)"
  by (simp add: count_or_timer_def Let_def case_prod_beta waitUntil_def split: option.splits)

lemma count_or_timer_effects: "\<exists>rest. effects (fst (count_or_timer w)) = effects w @ rest"
proof -
  obtain r1 where r1: "effects (scheduleFlush (flushAfterMs (logger w)) True w) = effects w @ r1"
    using effects_scheduleFlush by blast
  obtain r2 where r2: "effects (scheduleFlush (flushAfterMs (logger w)) False w) = effects w @ r2"
    using effects_scheduleFlush by blast
  show ?thesis using r1 r2
    by (simp add: count_or_timer_def Let_def case_prod_beta waitUntil_def split: option.splits)
qed

lemma direct_send_fallback_Inr:
  assumes "direct_send_fallback l w = Inr w1"
  shows "\<exists>fallback. w1 = w\<lparr>effects := effects w @ fallback\<rparr>
           \<and> (fallback = [] \<or> (\<exists>s. fallback = [ConsoleLog s]))"
proof (cases "apiKey (logger w) = [] \<or> ctx (logger w) = None")
  case True
  with assms obtain s where "w1 = console_log (template s) w"
    by (auto simp: direct_send_fallback_def split: sum.splits)
  then have "w1 = w\<lparr>effects := effects w @ [ConsoleLog (template s)]\<rparr>"
    by (simp add: console_log_def)
  then show ?thesis by blast
next
  case False
  with assms have "w1 = w\<lparr>effects := effects w @ []\<rparr>"
    by (simp add: direct_send_fallback_def)
  then show ?thesis by blast
qed

lemma underscore_log_buffered:
  assumes "\<not> isLocalDev (logger w)"
    and "direct_send_fallback (log_record (logger w) env m level data) w = Inr w1"
  shows "logs (logger (fst (underscore_log env m level data w)))
           = logs (logger w) @ [log_record (logger w) env m level data]"
proof -
  have "logs (logger w1) = logs (logger w)"
    using assms(2) by (auto simp: direct_send_fallback_def console_log_def split: if_splits sum.splits)
  then show ?thesis using assms
    by (simp add: underscore_log_def Let_def logs_push_def)
qed

text \<open>
  C7, as the code has it. Outside local development mode, with an empty API key or no
  execution context, a call of \<^verbatim>\<open>_log\<close> whose record \<^verbatim>\<open>JSON.stringify\<close> can serialise
  prints that text on the console within the call, and appends the record to the
  buffer; the buffer is then what the same call leaves with a key and a context.
\<close>

theorem fallback_prints_and_buffers:
  assumes "\<not> isLocalDev (logger w)"
    and "apiKey (logger w) = [] \<or> ctx (logger w) = None"
    and "JSON_stringify (JObj (log_record (logger w) env m level data)) = Inr s"
  shows "(\<exists>rest. effects (fst (underscore_log env m level data w))
                   = effects w @ ConsoleLog (template s) # rest)
    \<and> logs (logger (fst (underscore_log env m level data w)))
           = logs (logger w) @ [log_record (logger w) env m level data]
    \<and> logs (logger (fst (underscore_log env m level data
               (w\<lparr>logger := (logger w)\<lparr>apiKey := k # ks, ctx := Some c\<rparr>\<rparr>))))
           = logs (logger (fst (underscore_log env m level data w)))"
proof -
  let ?l = "log_record (logger w) env m level data"
  let ?wn = "w\<lparr>logger := (logger w)\<lparr>apiKey := k # ks, ctx := Some c\<rparr>\<rparr>"
  have fb: "direct_send_fallback ?l w = Inr (console_log (template s) w)"
    using assms(2,3) by (auto simp: direct_send_fallback_def)
  have u: "underscore_log env m level data w
             = count_or_timer (logs_push ?l (console_log (template s) w))"
    using assms(1) fb by (simp add: underscore_log_def)
  obtain rest where "effects (fst (count_or_timer (logs_push ?l (console_log (template s) w))))
                       = effects (logs_push ?l (console_log (template s) w)) @ rest"
    using count_or_timer_effects by blast
  then have e: "effects (fst (underscore_log env m level data w))
                  = effects w @ ConsoleLog (template s) # rest"
    using u by (simp add: host_defs)
  have b: "logs (logger (fst (underscore_log env m level data w))) = logs (logger w) @ [?l]"
    using assms(1) fb by (rule underscore_log_buffered)
  have rec: "log_record (logger ?wn) env m level data = ?l"
    by (simp add: log_record_def)
  have "direct_send_fallback ?l ?wn = Inr ?wn"
    by (simp add: direct_send_fallback_def)
  with rec have "direct_send_fallback (log_record (logger ?wn) env m level data) ?wn = Inr ?wn"
    by simp
  moreover have "\<not> isLocalDev (logger ?wn)" using assms(1) by simp
  ultimately have "logs (logger (fst (underscore_log env m level data ?wn)))
                     = logs (logger ?wn) @ [log_record (logger ?wn) env m level data]"
    by (rule underscore_log_buffered [rotated])
  then have n: "logs (logger (fst (underscore_log env m level data ?wn))) = logs (logger w) @ [?l]"
    using rec by simp
  show ?thesis using e b n by simp
qed

text \<open>The theorem at \<^verbatim>\<open>info("x")\<close> on a new logger with an empty API key.\<close>

theorem fallback_prints_and_buffers_witness:
  "\<not> isLocalDev (logger ex_world_nokey) \<and> apiKey (logger ex_world_nokey) = []
   \<and> (\<exists>s. JSON_stringify (JObj (log_record (logger ex_world_nokey) ex_env (Some ''x'') LInfo None))
             = Inr s
          \<and> (\<exists>rest. effects (fst (underscore_log ex_env (Some ''x'') LInfo None ex_world_nokey))
                       = effects ex_world_nokey @ ConsoleLog (template s) # rest))
   \<and> logs (logger (fst (underscore_log ex_env (Some ''x'') LInfo None ex_world_nokey)))
       = logs (logger ex_world_nokey)
         @ [log_record (logger ex_world_nokey) ex_env (Some ''x'') LInfo None]"
proof -
  have h1: "\<not> isLocalDev (logger ex_world_nokey)"
    by (simp add: ex_defs)
  have h2: "apiKey (logger ex_world_nokey) = [] \<or> ctx (logger ex_world_nokey) = None"
    by (simp add: ex_defs)
  have "\<exists>s. JSON_stringify (JObj (log_record (logger ex_world_nokey) ex_env (Some ''x'') LInfo None))
          = Inr s"
    by (simp add: JSON_stringify_def log_record_def opt_str_def ex_defs)
  then obtain s where
    h3: "JSON_stringify (JObj (log_record (logger ex_world_nokey) ex_env (Some ''x'') LInfo None))
          = Inr s" ..
  from fallback_prints_and_buffers [OF h1 h2 h3] h1 h3 show ?thesis
    by (auto simp: ex_defs)
qed

text \<open>
  C7 as stated fails at \<^verbatim>\<open>info("x", {n: 10n})\<close> on a logger with an empty API key:
  \<^verbatim>\<open>JSON.stringify(log)\<close> throws on the BigInt before the push, so nothing is printed and
  nothing is buffered, and the promise of \<^verbatim>\<open>_log\<close> is rejected. With a key the same call
  buffers the record.
\<close>

theorem fallback_bigint_not_buffered:
  "\<not> isLocalDev (logger ex_world_nokey) \<and> apiKey (logger ex_world_nokey) = []
   \<and> underscore_log ex_env (Some ''x'') LInfo (Some [(''n'', JBigInt 10)]) ex_world_nokey
     = (ex_world_nokey, Some (TypeError ''Do not know how to serialize a BigInt''))
   \<and> logs (logger (fst (underscore_log ex_env (Some ''x'') LInfo (Some [(''n'', JBigInt 10)]) ex_world))) 
     = [log_record (logger ex_world) ex_env (Some ''x'') LInfo (Some [(''n'', JBigInt 10)])]"
  by (simp add: ex_defs underscore_log_def log_record_def direct_send_fallback_def JSON_stringify_def opt_str_def obj_get_def Let_def logs_push_def)

text \<open>
  C4, as the code has it. Let a call of \<^verbatim>\<open>_log\<close> on a logger with an execution context
  append a record and
  bring the buffer to the count threshold or beyond. Then within the call, after the
  fallback line if there is one, the pending timer if there is one is cleared (and a new
  one set when no delivery is in flight), and then \<^verbatim>\<open>ctx.waitUntil\<close> is called with the
  promise of a call \<^verbatim>\<open>flush({skipIfInProgress: true})\<close> made in between: the call has
  returned if a delivery is in flight, and is suspended at its first \<^verbatim>\<open>await\<close> otherwise.
\<close>

theorem count_threshold_registers_flush:
  assumes c: "ctx (logger w) = Some c"
    and grow: "length (logs (logger (fst (underscore_log env m level data w)))) = Suc (length (logs (logger w)))"
    and thr: "flushAfterLogs (logger w) \<le> int (length (logs (logger (fst (underscore_log env m level data w)))))"
  shows "\<exists>fallback. (fallback = [] \<or> (\<exists>s. fallback = [ConsoleLog s]))
     \<and> effects (fst (underscore_log env m level data w)) =
         effects w @ fallback
         @ (case flushTimeout (logger w) of
              None \<Rightarrow> []
            | Some t \<Rightarrow> ClearTimeout t #
                (if flushPromise (logger w) = None
                 then [SetTimeout (nextTimer w) (flushAfterMs (logger w))] else []))
         @ [WaitUntil (nextPromise w)]
     \<and> promises (fst (underscore_log env m level data w)) =
         promises w @ [(nextPromise w, FlushCall True,
                        if flushPromise (logger w) = None then Pending else Fulfilled)]
     \<and> flushTasks (fst (underscore_log env m level data w)) =
         flushTasks w @ (if flushPromise (logger w) = None
                         then [(nextPromise w, AwaitBarrier None)] else [])"
proof -
  let ?w' = "fst (underscore_log env m level data w)"
  let ?l = "log_record (logger w) env m level data"
  have nl: "\<not> isLocalDev (logger w)"
  proof
    assume "isLocalDev (logger w)"
    from underscore_log_local [OF this, of env m level data]
    have "logger ?w' = logger w" by auto
    with grow show False by simp
  qed
  obtain w1 where fb: "direct_send_fallback ?l w = Inr w1"
  proof (cases "direct_send_fallback ?l w")
    case (Inl e)
    with nl have "?w' = w" by (simp add: underscore_log_def)
    with grow show ?thesis by simp
  next
    case (Inr w1)
    then show ?thesis using that by blast
  qed
  obtain fallback where w1: "w1 = w\<lparr>effects := effects w @ fallback\<rparr>"
    and fbl: "fallback = [] \<or> (\<exists>s. fallback = [ConsoleLog s])"
    using direct_send_fallback_Inr [OF fb] by blast
  define w2 where "w2 = logs_push ?l w1"
  have u: "?w' = fst (count_or_timer w2)"
    using nl fb by (simp add: underscore_log_def w2_def)
  have w2: "logger w2 = (logger w)\<lparr>logs := logs (logger w) @ [?l]\<rparr>"
    "effects w2 = effects w @ fallback" "promises w2 = promises w"
    "nextPromise w2 = nextPromise w" "flushTasks w2 = flushTasks w" "nextTimer w2 = nextTimer w"
    by (simp_all add: w2_def w1 logs_push_def)
  have t2: "flushAfterLogs (logger w2) \<le> int (length (logs (logger w2)))"
    using thr grow by (simp add: w2)
  show ?thesis
  proof (cases "flushTimeout (logger w)")
    case None
    then have "?w' = waitUntil (nextPromise w2) (snd (flush True w2))"
      using u t2 c by (simp add: count_or_timer_def Let_def w2 case_prod_beta)
    then show ?thesis using fbl None
      by (auto simp: flush_True waitUntil_def w2)
  next
    case (Some t)
    then have ft: "flushTimeout (logger w2) = Some t" by (simp add: w2)
    let ?w3 = "scheduleFlush (flushAfterMs (logger w2)) True w2"
    have "?w' = waitUntil (nextPromise ?w3) (snd (flush True ?w3))"
      using u t2 c ft by (simp add: count_or_timer_def Let_def w2 case_prod_beta)
    then show ?thesis using fbl Some
      by (auto simp: flush_True waitUntil_def w2 scheduleFlush_reset_Some [OF ft])
  qed
qed

text \<open>The theorem at \<^verbatim>\<open>info("b")\<close> after \<^verbatim>\<open>info("a")\<close>, with the threshold 2.\<close>

theorem count_threshold_registers_flush_witness:
  "ctx (logger ex_world_a) = Some ExecutionContext
   \<and> length (logs (logger (fst (underscore_log ex_env (Some ''b'') LInfo None ex_world_a))))
       = Suc (length (logs (logger ex_world_a)))
   \<and> flushAfterLogs (logger ex_world_a)
       \<le> int (length (logs (logger (fst (underscore_log ex_env (Some ''b'') LInfo None ex_world_a)))))
   \<and> effects ex_world_a = [SetTimeout 0 10000]
   \<and> flushTimeout (logger ex_world_a) = Some 0
   \<and> (\<exists>fallback. (fallback = [] \<or> (\<exists>s. fallback = [ConsoleLog s]))
        \<and> effects (fst (underscore_log ex_env (Some ''b'') LInfo None ex_world_a)) =
            effects ex_world_a @ fallback
            @ (case flushTimeout (logger ex_world_a) of
                 None \<Rightarrow> []
               | Some t \<Rightarrow> ClearTimeout t #
                   (if flushPromise (logger ex_world_a) = None
                    then [SetTimeout (nextTimer ex_world_a) (flushAfterMs (logger ex_world_a))]
                    else []))
            @ [WaitUntil (nextPromise ex_world_a)]
        \<and> promises (fst (underscore_log ex_env (Some ''b'') LInfo None ex_world_a)) =
            promises ex_world_a @ [(nextPromise ex_world_a, FlushCall True,
                           if flushPromise (logger ex_world_a) = None then Pending else Fulfilled)]
        \<and> flushTasks (fst (underscore_log ex_env (Some ''b'') LInfo None ex_world_a)) =
            flushTasks ex_world_a @ (if flushPromise (logger ex_world_a) = None
                            then [(nextPromise ex_world_a, AwaitBarrier None)] else []))"
proof -
  have h1: "ctx (logger ex_world_a) = Some ExecutionContext"
    by code_simp
  have h2: "length (logs (logger (fst (underscore_log ex_env (Some ''b'') LInfo None ex_world_a))))
             = Suc (length (logs (logger ex_world_a)))"
    by code_simp
  have h3: "flushAfterLogs (logger ex_world_a)
       \<le> int (length (logs (logger (fst (underscore_log ex_env (Some ''b'') LInfo None ex_world_a)))))"
    by code_simp
  have v: "effects ex_world_a = [SetTimeout 0 10000]" "flushTimeout (logger ex_world_a) = Some 0"
    by code_simp+
  from count_threshold_registers_flush [OF h1 h2 h3] h1 h2 h3 v show ?thesis
    by blast
qed

text \<open>
  C4 as stated fails on a logger that was given no execution context, which the code
  itself tests for: with the threshold 1, \<^verbatim>\<open>info("a")\<close> appends the record and brings the
  buffer to the threshold, and then \<^verbatim>\<open>this.ctx.waitUntil\<close> throws. No call of \<^verbatim>\<open>flush\<close> is
  made and nothing is registered; the promise of \<^verbatim>\<open>_log\<close> is rejected.
\<close>

theorem no_context_nothing_registered:
  "ctx (logger ex_world_noctx) = None \<and> \<not> isLocalDev (logger ex_world_noctx)
   \<and> logs (logger ex_world_noctx) = [] \<and> flushAfterLogs (logger ex_world_noctx) = 1
   \<and> map_prod (\<lambda>w. (length (logs (logger w)), registered (effects w), promises w, flushTasks w))
        (\<lambda>r. r \<noteq> None)
        (underscore_log ex_env (Some ''a'') LInfo None ex_world_noctx)
      = ((1, [], [], []), True)"
  by code_simp

text \<open>
  In general: without an execution context, a call of \<^verbatim>\<open>_log\<close> that appends a record and
  brings the buffer to the threshold makes no call of \<^verbatim>\<open>flush\<close>, registers nothing, and
  ends with an exception.
\<close>

lemma registered_scheduleFlush:
  "registered (effects (scheduleFlush ms r w)) = registered (effects w)"
  by (simp add: scheduleFlush_def host_defs Let_def registered_append
      split: option.splits prod.splits)

lemma no_context_registers_nothing:
  assumes c: "ctx (logger w) = None"
    and grow: "length (logs (logger (fst (underscore_log env m level data w))))
                 = Suc (length (logs (logger w)))"
    and thr: "flushAfterLogs (logger w)
                \<le> int (length (logs (logger (fst (underscore_log env m level data w)))))"
  shows "registered (effects (fst (underscore_log env m level data w))) = registered (effects w)
     \<and> promises (fst (underscore_log env m level data w)) = promises w
     \<and> flushTasks (fst (underscore_log env m level data w)) = flushTasks w
     \<and> (\<exists>x. snd (underscore_log env m level data w) = Some x)"
proof -
  let ?w' = "fst (underscore_log env m level data w)"
  let ?l = "log_record (logger w) env m level data"
  have nl: "\<not> isLocalDev (logger w)"
  proof
    assume "isLocalDev (logger w)"
    from underscore_log_local [OF this, of env m level data]
    have "logger ?w' = logger w" by auto
    with grow show False by simp
  qed
  obtain w1 where fb: "direct_send_fallback ?l w = Inr w1"
  proof (cases "direct_send_fallback ?l w")
    case (Inl e)
    with nl have "?w' = w" by (simp add: underscore_log_def)
    with grow show ?thesis by simp
  next
    case (Inr w1)
    then show ?thesis using that by blast
  qed
  obtain fallback where w1: "w1 = w\<lparr>effects := effects w @ fallback\<rparr>"
    and fbl: "fallback = [] \<or> (\<exists>s. fallback = [ConsoleLog s])"
    using direct_send_fallback_Inr [OF fb] by blast
  define w2 where "w2 = logs_push ?l w1"
  have u: "underscore_log env m level data w = count_or_timer w2"
    using nl fb by (simp add: underscore_log_def w2_def)
  have w2: "logger w2 = (logger w)\<lparr>logs := logs (logger w) @ [?l]\<rparr>"
    "effects w2 = effects w @ fallback" "promises w2 = promises w"
    "flushTasks w2 = flushTasks w"
    by (simp_all add: w2_def w1 logs_push_def)
  have t2: "flushAfterLogs (logger w2) \<le> int (length (logs (logger w2)))"
    using thr grow by (simp add: w2)
  have r2: "registered (effects w2) = registered (effects w)"
    using fbl by (auto simp: w2 registered_append)
  have c2: "ctx (logger w2) = None" using c by (simp add: w2)
  show ?thesis
    using t2 c2 r2
    by (simp add: u count_or_timer_def Let_def registered_scheduleFlush w2)
qed

section \<open>log and info\<close>

text \<open>
  C10, as the code has it. \<^verbatim>\<open>log\<close> and \<^verbatim>\<open>info\<close> are the same function of message, data,
  environment and state: both are \<^verbatim>\<open>_log\<close> with the level argument \<^verbatim>\<open>"info"\<close>. Outside local
  development mode, when the fallback write does not throw, the call appends one
  record, the one \<^verbatim>\<open>_log\<close> formats; in local development mode it appends none. The level
  of the record is \<^verbatim>\<open>"info"\<close> when the data have no \<^verbatim>\<open>level\<close> of their own, and the value
  of that property when they have one.
\<close>

theorem log_equals_info:
  "log msg data env w = info msg data env w
   \<and> log msg data env w = fst (underscore_log env (Some msg) LInfo data w)
   \<and> (\<not> isLocalDev (logger w)
        \<and> direct_send_fallback (log_record (logger w) env (Some msg) LInfo data) w = Inr w1 \<longrightarrow>
        logs (logger (log msg data env w))
          = logs (logger w) @ [log_record (logger w) env (Some msg) LInfo data])
   \<and> (isLocalDev (logger w) \<longrightarrow> logs (logger (log msg data env w)) = logs (logger w))
   \<and> ((case data of None \<Rightarrow> True | Some d \<Rightarrow> ''level'' \<notin> fst ` set d) \<longrightarrow>
        obj_get (log_record (logger w) env (Some msg) LInfo data) ''level'' = JStr ''info'')
   \<and> (distinct (map fst d) \<and> map_of d ''level'' = Some v \<longrightarrow>
        obj_get (log_record (logger w) env (Some msg) LInfo (Some d)) ''level'' = v)"
proof (intro conjI impI)
  show "log msg data env w = info msg data env w"
    by (simp add: log_def info_def)
  show "log msg data env w = fst (underscore_log env (Some msg) LInfo data w)"
    by (simp add: log_def)
next
  assume "\<not> isLocalDev (logger w)
        \<and> direct_send_fallback (log_record (logger w) env (Some msg) LInfo data) w = Inr w1"
  then show "logs (logger (log msg data env w))
          = logs (logger w) @ [log_record (logger w) env (Some msg) LInfo data]"
    using underscore_log_buffered [of w env "Some msg" LInfo data w1] by (simp add: log_def)
next
  assume "isLocalDev (logger w)"
  from underscore_log_local [OF this, of env "Some msg" LInfo data]
  show "logs (logger (log msg data env w)) = logs (logger w)"
    by (auto simp: log_def)
next
  assume "case data of None \<Rightarrow> True | Some d \<Rightarrow> ''level'' \<notin> fst ` set d"
  then show "obj_get (log_record (logger w) env (Some msg) LInfo data) ''level'' = JStr ''info''"
    using level_absent [of data "logger w" env "Some msg" LInfo] by simp
next
  assume "distinct (map fst d) \<and> map_of d ''level'' = Some v"
  then show "obj_get (log_record (logger w) env (Some msg) LInfo (Some d)) ''level'' = v"
    by (simp add: level_Some)
qed

text \<open>
  The theorem at \<^verbatim>\<open>log("a", {foo: "bar"})\<close> on a new logger, at \<^verbatim>\<open>log("a")\<close> in local
  development mode, and at the data \<^verbatim>\<open>{level: "debug"}\<close>.
\<close>

theorem log_equals_info_witness:
  "\<not> isLocalDev (logger ex_world)
   \<and> direct_send_fallback (log_record (logger ex_world) ex_env (Some ''a'') LInfo
         (Some [(''foo'', JStr ''bar'')])) ex_world = Inr ex_world
   \<and> log ''a'' (Some [(''foo'', JStr ''bar'')]) ex_env ex_world
       = info ''a'' (Some [(''foo'', JStr ''bar'')]) ex_env ex_world
   \<and> logs (logger (log ''a'' (Some [(''foo'', JStr ''bar'')]) ex_env ex_world))
       = logs (logger ex_world)
         @ [log_record (logger ex_world) ex_env (Some ''a'') LInfo (Some [(''foo'', JStr ''bar'')])]
   \<and> ''level'' \<notin> fst ` set [(''foo'', JStr ''bar'')]
   \<and> obj_get (log_record (logger ex_world) ex_env (Some ''a'') LInfo
               (Some [(''foo'', JStr ''bar'')])) ''level'' = JStr ''info''
   \<and> isLocalDev (logger ex_world_local)
   \<and> logs (logger (log ''a'' None ex_env ex_world_local)) = logs (logger ex_world_local)
   \<and> distinct (map fst [(''level'', JStr ''debug'')])
   \<and> map_of [(''level'', JStr ''debug'')] ''level'' = Some (JStr ''debug'')
   \<and> obj_get (log_record (logger ex_world) ex_env (Some ''a'') LInfo
               (Some [(''level'', JStr ''debug'')])) ''level'' = JStr ''debug''"
proof -
  have h: "\<not> isLocalDev (logger ex_world)"
    "direct_send_fallback (log_record (logger ex_world) ex_env (Some ''a'') LInfo
         (Some [(''foo'', JStr ''bar'')])) ex_world = Inr ex_world"
    "isLocalDev (logger ex_world_local)"
    by code_simp+
  from log_equals_info [of "''a''" "Some [(''foo'', JStr ''bar'')]" ex_env ex_world ex_world
              "[(''level'', JStr ''debug'')]" "JStr ''debug''"]
    log_equals_info [of "''a''" None ex_env ex_world_local ex_world
              "[(''level'', JStr ''debug'')]" "JStr ''debug''"]
    h
  show ?thesis by (intro conjI) (blast | simp)+
qed

text \<open>
  C10 as stated fails at \<^verbatim>\<open>log("x", {level: "debug"})\<close>: the call is the same as
  \<^verbatim>\<open>info("x", {level: "debug"})\<close>, and the one record it appends has the level
  \<^verbatim>\<open>"debug"\<close>; and in local development mode \<^verbatim>\<open>log("x")\<close> appends no record.
\<close>

theorem log_level_overridden_counterexample:
  "log ''x'' (Some [(''level'', JStr ''debug'')]) ex_env ex_world
     = info ''x'' (Some [(''level'', JStr ''debug'')]) ex_env ex_world
   \<and> map (\<lambda>r. obj_get r ''level'')
        (logs (logger (log ''x'' (Some [(''level'', JStr ''debug'')]) ex_env ex_world)))
      = [JStr ''debug'']
   \<and> logs (logger (log ''x'' None ex_env ex_world_local)) = []"
  by code_simp

section \<open>Promise ids\<close>

text \<open>\<^const>\<open>wf_world\<close> holds of a new logger and is kept by every piece of an execution.\<close>

lemma wf_world_iff:
  "wf_world w \<longleftrightarrow>
     (\<forall>k \<in> fst ` set (promises w) \<union> fst ` set (flushTasks w) \<union> fst ` set (doFlushTasks w).
        k < nextPromise w)"
  by (auto simp: wf_world_def list_all_iff)

lemma map_of_key: "map_of xs k = Some v \<Longrightarrow> k \<in> fst ` set xs"
  by (metis map_of_eq_None_iff option.distinct(1))

lemma wf_frame:
  "wf_world (console_log s w) = wf_world w"
  "wf_world (console_error s w) = wf_world w"
  "wf_world (waitUntil p w) = wf_world w"
  "wf_world (fetch r w) = wf_world w"
  "wf_world (clearTimeout t w) = wf_world w"
  "wf_world (snd (setTimeout ms w)) = wf_world w"
  "wf_world (set_flushTimeout x w) = wf_world w"
  "wf_world (set_flushPromise y w) = wf_world w"
  "wf_world (logs_push l w) = wf_world w"
  "wf_world (logs_splice n w) = wf_world w"
  "wf_world (w\<lparr>timers := ts\<rparr>) = wf_world w"
  by (simp_all add: wf_world_def host_defs)

lemma wf_new_promise: "wf_world w \<Longrightarrow> wf_world (snd (new_promise org st w))"
  by (auto simp: wf_world_iff new_promise_def intro: less_SucI)

lemma wf_settle: "wf_world (settle p st w) = wf_world w"
  by (simp add: wf_world_iff settle_def dom_map_entry)

lemma wf_scheduleFlush: "wf_world (scheduleFlush ms r w) = wf_world w"
  by (simp add: wf_world_def)

lemma wf_flush: "wf_world w \<Longrightarrow> wf_world (snd (flush b w))"
  by (auto simp: wf_world_iff flush_def new_promise_def Let_def intro: less_SucI)

lemma wf_doFlush: "wf_world w \<Longrightarrow> wf_world (snd (doFlush w))"
  by (auto simp: wf_world_iff doFlush_def new_promise_def fetch_def Let_def
      intro: less_SucI split: sum.splits)

lemma doFlush_next: "nextPromise (snd (doFlush w)) = Suc (nextPromise w)"
  by (simp add: doFlush_def new_promise_def fetch_def Let_def split: sum.splits)

lemma delete_keys_subset: "k \<in> fst ` set (AList.delete p xs) \<Longrightarrow> k \<in> fst ` set xs"
  using dom_delete_subset [of p xs] by blast

lemma wf_delete_flush:
  "wf_world w \<Longrightarrow> wf_world (w\<lparr>flushTasks := AList.delete p (flushTasks w)\<rparr>)"
  unfolding wf_world_iff by (auto dest!: delete_keys_subset [OF imageI])

lemma wf_delete_doFlush:
  "wf_world w \<Longrightarrow> wf_world (w\<lparr>doFlushTasks := AList.delete p (doFlushTasks w)\<rparr>)"
  unfolding wf_world_iff by (auto dest!: delete_keys_subset [OF imageI])

lemma wf_update_doFlush:
  "wf_world w \<Longrightarrow> map_of (doFlushTasks w) d = Some pc \<Longrightarrow>
   wf_world (w\<lparr>doFlushTasks := AList.update d pc' (doFlushTasks w)\<rparr>)"
  by (auto simp: wf_world_iff dom_update dest: map_of_key)

lemma wf_start_doFlush:
  assumes "wf_world w" and "map_of (flushTasks w) p = Some pc"
  shows "wf_world (start_doFlush p w)"
proof -
  obtain d w1 where dw: "doFlush w = (d, w1)" by (cases "doFlush w")
  have w1: "wf_world w1" using wf_doFlush [OF assms(1)] dw by simp
  have n: "nextPromise w1 = Suc (nextPromise w)" using doFlush_next [of w] dw by simp
  have "p < nextPromise w" using assms by (auto simp: wf_world_iff dest: map_of_key)
  then have "p < nextPromise w1" using n by simp
  then show ?thesis using w1
    by (auto simp: start_doFlush_def dw Let_def wf_world_iff dom_update set_flushPromise_def)
qed

lemma wf_end_flush: "wf_world w \<Longrightarrow> wf_world (end_flush p st w)"
  by (simp add: end_flush_def wf_settle wf_delete_flush)

lemma wf_end_doFlush: "wf_world w \<Longrightarrow> wf_world (end_doFlush p w)"
  by (simp add: end_doFlush_def wf_settle wf_delete_doFlush)

lemma wf_resume_flush:
  assumes "wf_world w" and "resume_flush p w = Some w'"
  shows "wf_world w'"
proof (cases "map_of (flushTasks w) p")
  case None
  with assms show ?thesis by (simp add: resume_flush_def)
next
  case (Some pc)
  have s: "wf_world (start_doFlush p w)"
    using assms(1) Some by (rule wf_start_doFlush)
  have e: "\<And>st. wf_world (end_flush p st w)"
    using assms(1) by (rule wf_end_flush)
  have f: "wf_world (end_flush p Fulfilled (set_flushPromise None w))"
    using assms(1) by (simp add: wf_end_flush wf_frame)
  show ?thesis using assms(2) Some s e f
    by (auto simp: resume_flush_def split: flush_pc.splits option.splits promise.splits)
qed

lemma wf_fetch_settles:
  assumes "wf_world w" and "fetch_settles d res w = Some w'"
  shows "wf_world w'"
proof (cases "map_of (doFlushTasks w) d")
  case None
  with assms show ?thesis by (simp add: fetch_settles_def)
next
  case (Some pc)
  have u: "\<And>pc'. wf_world (w\<lparr>doFlushTasks := AList.update d pc' (doFlushTasks w)\<rparr>)"
    using wf_update_doFlush [OF assms(1) Some] .
  have v: "\<And>n pc'. wf_world (logs_splice n w\<lparr>doFlushTasks := AList.update d pc' (doFlushTasks w)\<rparr>)"
    using u by (simp add: wf_world_def logs_splice_def)
  have x: "\<And>s. wf_world (end_doFlush d (console_error s w))"
    using assms(1) by (simp add: wf_end_doFlush wf_frame)
  show ?thesis using assms(2) Some u v x
    by (auto simp: fetch_settles_def Let_def logs_splice_def
        split: doFlush_pc.splits fetch_result.splits if_splits)
qed

lemma wf_body_settles:
  assumes "wf_world w" and "body_settles d res w = Some w'"
  shows "wf_world w'"
proof -
  have x: "\<And>s. wf_world (end_doFlush d (console_error s w))"
    "\<And>s. wf_world (end_doFlush d (console_log s w))" "wf_world (end_doFlush d w)"
    using assms(1) by (simp_all add: wf_end_doFlush wf_frame)
  show ?thesis using assms(2) x
    by (auto simp: body_settles_def split: option.splits doFlush_pc.splits body_result.splits)
qed

lemma wf_timer_fires:
  assumes "wf_world w" and "timer_fires t w = Some w'"
  shows "wf_world w'"
proof -
  let ?w1 = "w\<lparr>timers := AList.delete t (timers w)\<rparr>"
  have w1: "wf_world ?w1" using assms(1) by (simp add: wf_frame)
  have "wf_world (snd (flush True ?w1))" using w1 by (rule wf_flush)
  then have "wf_world (set_flushTimeout None (snd (flush True ?w1)))" by (simp add: wf_frame)
  then have "wf_world (snd (new_promise TimerCallback Fulfilled
                              (set_flushTimeout None (snd (flush True ?w1)))))"
    by (rule wf_new_promise)
  then show ?thesis using assms(2) w1
    by (auto simp: timer_fires_def wf_frame Let_def case_prod_beta split: option.splits)
qed

lemma wf_count_or_timer: "wf_world w \<Longrightarrow> wf_world (fst (count_or_timer w))"
  by (simp add: count_or_timer_def Let_def case_prod_beta wf_frame wf_flush wf_scheduleFlush
      split: option.splits)

lemma wf_underscore_log:
  assumes "wf_world w"
  shows "wf_world (fst (underscore_log env m level data w))"
proof (cases "isLocalDev (logger w)")
  case True
  from underscore_log_local [OF this, of env m level data] assms show ?thesis
    by (auto simp: wf_world_def)
next
  case False
  let ?l = "log_record (logger w) env m level data"
  show ?thesis
  proof (cases "direct_send_fallback ?l w")
    case (Inl e)
    with False assms show ?thesis by (simp add: underscore_log_def)
  next
    case (Inr w1)
    from direct_send_fallback_Inr [OF this] assms have "wf_world w1"
      by (auto simp: wf_world_def)
    then have "wf_world (fst (count_or_timer (logs_push ?l w1)))"
      by (simp add: wf_count_or_timer wf_frame)
    with False Inr show ?thesis by (simp add: underscore_log_def)
  qed
qed

lemma wf_step:
  assumes "wf_world w" and "step e w = Some w'"
  shows "wf_world w'"
proof (cases "is_record_call e")
  case True
  from record_call_cases [OF this assms(2)] assms(1) show ?thesis
    using wf_underscore_log by blast
next
  case False
  show ?thesis
  proof (cases e)
    case (CallFlush b)
    with assms show ?thesis using wf_flush [of w b] by auto
  next
    case (TimerFires t)
    with assms show ?thesis using wf_timer_fires [of w t w'] by simp
  next
    case (ResumeFlush p)
    with assms show ?thesis using wf_resume_flush [of w p w'] by simp
  next
    case (FetchSettles d res)
    with assms show ?thesis using wf_fetch_settles [of w d res w'] by simp
  next
    case (BodySettles d res)
    with assms show ?thesis using wf_body_settles [of w d res w'] by simp
  qed (use False in simp_all)
qed

lemma wf_run: "wf_world w \<Longrightarrow> run es w = Some w' \<Longrightarrow> wf_world w'"
proof (induction es arbitrary: w)
  case Nil
  then show ?case by simp
next
  case (Cons e es)
  then obtain w1 where s: "step e w = Some w1" and r: "run es w1 = Some w'"
    by (auto split: option.splits)
  from wf_step [OF Cons.prems(1) s] have "wf_world w1" .
  then show ?case using Cons.IH r by blast
qed

lemma wf_new_world: "wf_world (new_world args uuid)"
  by (simp add: wf_world_def new_world_def)

section \<open>Deliveries\<close>

lemma promise_state_settle:
  "promise_state (settle p st w) q =
     (if q = p then map_option (\<lambda>_. st) (promise_state w p) else promise_state w q)"
  by (auto simp: promise_state_def settle_def map_of_map_entry split: option.splits)

lemma promise_state_frame [simp]:
  "promise_state (console_log s w) = promise_state w"
  "promise_state (console_error s w) = promise_state w"
  "promise_state (set_flushPromise x w) = promise_state w"
  "promise_state (w\<lparr>doFlushTasks := dt\<rparr>) = promise_state w"
  "promise_state (w\<lparr>flushTasks := ft\<rparr>) = promise_state w"
  by (auto simp: promise_state_def host_defs fun_eq_iff)

text \<open>
  C2, as the code has it, piece by piece, in every state. A call of \<^verbatim>\<open>doFlush\<close> whose
  \<^verbatim>\<open>fetch\<close> throws leaves the logger as it is, writes the failure with \<^verbatim>\<open>console.error\<close>
  and ends fulfilled. On a response that is not ok it leaves the logger as it is and
  goes on to read the body; when that is read it writes the failure line with the
  status (\<^verbatim>\<open>console.log\<close>), or the exception of the read (\<^verbatim>\<open>console.error\<close>), the logger
  still as it is, and ends fulfilled. On a response that is ok it removes the first
  \<^verbatim>\<open>logsCount\<close> records and goes on to read the body; when that read throws, the same
  \<^verbatim>\<open>catch\<close> writes the failure with \<^verbatim>\<open>console.error\<close> and the call ends fulfilled, the
  buffer staying as the removal left it. The call of \<^verbatim>\<open>flush\<close> that awaits a fulfilled
  \<^verbatim>\<open>doFlush\<close> ends fulfilled too, with the buffer as it is: no error reaches its caller.
\<close>

theorem failed_delivery_keeps_buffer:
  "(map_of (doFlushTasks w) d = Some (AwaitFetch n) \<and> promise_state w d = Some Pending \<longrightarrow>
      (\<exists>w'. fetch_settles d (FetchThrows err) w = Some w' \<and> logger w' = logger w
            \<and> effects w' = effects w @ [ConsoleError (''Axiom failed to ingest logs: '' @ err)]
            \<and> promise_state w' d = Some Fulfilled)
    \<and> (\<not> ok status \<longrightarrow>
         (\<exists>w'. fetch_settles d (Response status statusText) w = Some w' \<and> logger w' = logger w
               \<and> effects w' = effects w
               \<and> map_of (doFlushTasks w') d = Some (AwaitText status statusText)
               \<and> promise_state w' d = Some Pending))
    \<and> (ok status \<longrightarrow>
         (\<exists>w'. fetch_settles d (Response status statusText) w = Some w'
               \<and> logs (logger w') = drop n (logs (logger w))
               \<and> effects w' = effects w
               \<and> map_of (doFlushTasks w') d = Some AwaitArrayBuffer
               \<and> promise_state w' d = Some Pending)))
   \<and> (map_of (doFlushTasks w) d = Some (AwaitText status statusText)
        \<and> promise_state w d = Some Pending \<longrightarrow>
      (\<exists>w'. body_settles d body w = Some w' \<and> logger w' = logger w
            \<and> effects w' = effects w @
                 [case body of
                    Body b \<Rightarrow> ConsoleLog (''Axiom failed to ingest logs: '' @ show_int status
                                           @ '' '' @ statusText @ '' '' @ b)
                  | BodyThrows e \<Rightarrow> ConsoleError (''Axiom failed to ingest logs: '' @ e)]
            \<and> promise_state w' d = Some Fulfilled))
   \<and> (map_of (doFlushTasks w) d = Some AwaitArrayBuffer
        \<and> promise_state w d = Some Pending \<longrightarrow>
      (\<exists>w'. body_settles d (BodyThrows err) w = Some w' \<and> logger w' = logger w
            \<and> effects w' = effects w @ [ConsoleError (''Axiom failed to ingest logs: '' @ err)]
            \<and> promise_state w' d = Some Fulfilled))
   \<and> (map_of (flushTasks w) p = Some (AwaitDoFlush d) \<and> promise_state w d = Some Fulfilled
        \<and> promise_state w p = Some Pending \<longrightarrow>
      (\<exists>w'. resume_flush p w = Some w' \<and> logs (logger w') = logs (logger w)
            \<and> effects w' = effects w \<and> promise_state w' p = Some Fulfilled))"
  by (auto simp: fetch_settles_def body_settles_def resume_flush_def end_doFlush_def end_flush_def
      promise_state_settle update_conv' Let_def split: body_result.splits)
   (simp_all add: host_defs promise_state_def)

text \<open>
  The theorem on a delivery of two records: \<^verbatim>\<open>fetch\<close> throws; the response is 500 with
  the body \<^verbatim>\<open>overloaded\<close>; the response is 200 and reading its body throws; \<^verbatim>\<open>flush\<close> is
  resumed after the failure.
\<close>

theorem failed_delivery_keeps_buffer_witness:
  "map_of (doFlushTasks ex_world_inflight) 1 = Some (AwaitFetch 2)
   \<and> promise_state ex_world_inflight 1 = Some Pending
   \<and> \<not> ok 500 \<and> ok 200
   \<and> map_of (doFlushTasks ex_world_500) 1 = Some (AwaitText 500 ''Internal Server Error'')
   \<and> promise_state ex_world_500 1 = Some Pending
   \<and> map_of (doFlushTasks ex_world_200) 1 = Some AwaitArrayBuffer
   \<and> promise_state ex_world_200 1 = Some Pending
   \<and> map_of (flushTasks ex_world_thrown) 0 = Some (AwaitDoFlush 1)
   \<and> promise_state ex_world_thrown 1 = Some Fulfilled
   \<and> promise_state ex_world_thrown 0 = Some Pending
   \<and> (\<exists>w'. fetch_settles 1 (FetchThrows ''TypeError: fetch failed'') ex_world_inflight = Some w'
          \<and> logger w' = logger ex_world_inflight
          \<and> effects w' = effects ex_world_inflight
               @ [ConsoleError (''Axiom failed to ingest logs: '' @ ''TypeError: fetch failed'')])
   \<and> (\<exists>w'. fetch_settles 1 (Response 500 ''Internal Server Error'') ex_world_inflight = Some w'
          \<and> logger w' = logger ex_world_inflight \<and> effects w' = effects ex_world_inflight)
   \<and> (\<exists>w'. fetch_settles 1 (Response 200 ''OK'') ex_world_inflight = Some w'
          \<and> logs (logger w') = drop 2 (logs (logger ex_world_inflight)))
   \<and> (\<exists>w'. body_settles 1 (Body ''overloaded'') ex_world_500 = Some w'
          \<and> logger w' = logger ex_world_500
          \<and> effects w' = effects ex_world_500
               @ [ConsoleLog (''Axiom failed to ingest logs: '' @ show_int 500 @ '' ''
                              @ ''Internal Server Error'' @ '' '' @ ''overloaded'')]
          \<and> promise_state w' 1 = Some Fulfilled)
   \<and> (\<exists>w'. body_settles 1 (BodyThrows ''TypeError: body stream failed'') ex_world_200 = Some w'
          \<and> logger w' = logger ex_world_200
          \<and> effects w' = effects ex_world_200
               @ [ConsoleError (''Axiom failed to ingest logs: ''
                                @ ''TypeError: body stream failed'')]
          \<and> promise_state w' 1 = Some Fulfilled)
   \<and> (\<exists>w'. resume_flush 0 ex_world_thrown = Some w'
          \<and> logs (logger w') = logs (logger ex_world_thrown)
          \<and> promise_state w' 0 = Some Fulfilled)"
proof -
  have h: "map_of (doFlushTasks ex_world_inflight) 1 = Some (AwaitFetch 2)"
    "promise_state ex_world_inflight 1 = Some Pending"
    "\<not> ok 500" "ok 200"
    "map_of (doFlushTasks ex_world_500) 1 = Some (AwaitText 500 ''Internal Server Error'')"
    "promise_state ex_world_500 1 = Some Pending"
    "map_of (doFlushTasks ex_world_200) 1 = Some AwaitArrayBuffer"
    "promise_state ex_world_200 1 = Some Pending"
    "map_of (flushTasks ex_world_thrown) 0 = Some (AwaitDoFlush 1)"
    "promise_state ex_world_thrown 1 = Some Fulfilled"
    "promise_state ex_world_thrown 0 = Some Pending"
    by code_simp+
  have a: "\<exists>w'. fetch_settles 1 (FetchThrows ''TypeError: fetch failed'') ex_world_inflight = Some w'
          \<and> logger w' = logger ex_world_inflight
          \<and> effects w' = effects ex_world_inflight
               @ [ConsoleError (''Axiom failed to ingest logs: '' @ ''TypeError: fetch failed'')]"
    and b: "\<exists>w'. fetch_settles 1 (Response 500 ''Internal Server Error'') ex_world_inflight = Some w'
          \<and> logger w' = logger ex_world_inflight \<and> effects w' = effects ex_world_inflight"
    using failed_delivery_keeps_buffer [of ex_world_inflight 1 2 "''TypeError: fetch failed''" 500
         "''Internal Server Error''" "Body ''x''" 0] h(1-3)
    by blast+
  have c: "\<exists>w'. fetch_settles 1 (Response 200 ''OK'') ex_world_inflight = Some w'
          \<and> logs (logger w') = drop 2 (logs (logger ex_world_inflight))"
    using failed_delivery_keeps_buffer [of ex_world_inflight 1 2 "''e''" 200 "''OK''" "Body ''x''" 0]
      h(1,2,4)
    by blast
  have d: "\<exists>w'. body_settles 1 (Body ''overloaded'') ex_world_500 = Some w'
          \<and> logger w' = logger ex_world_500
          \<and> effects w' = effects ex_world_500
               @ [ConsoleLog (''Axiom failed to ingest logs: '' @ show_int 500 @ '' ''
                              @ ''Internal Server Error'' @ '' '' @ ''overloaded'')]
          \<and> promise_state w' 1 = Some Fulfilled"
    using failed_delivery_keeps_buffer [of ex_world_500 1 2 "''e''" 500 "''Internal Server Error''"
         "Body ''overloaded''" 0] h(5,6)
    by simp
  have e: "\<exists>w'. body_settles 1 (BodyThrows ''TypeError: body stream failed'') ex_world_200 = Some w'
          \<and> logger w' = logger ex_world_200
          \<and> effects w' = effects ex_world_200
               @ [ConsoleError (''Axiom failed to ingest logs: ''
                                @ ''TypeError: body stream failed'')]
          \<and> promise_state w' 1 = Some Fulfilled"
    using failed_delivery_keeps_buffer [of ex_world_200 1 2 "''TypeError: body stream failed''" 200
         "''OK''" "Body ''x''" 0] h(7,8)
    by blast
  have f: "\<exists>w'. resume_flush 0 ex_world_thrown = Some w'
          \<and> logs (logger w') = logs (logger ex_world_thrown)
          \<and> promise_state w' 0 = Some Fulfilled"
    using failed_delivery_keeps_buffer [of ex_world_thrown 1 2 "''e''" 500 "''Internal Server Error''"
         "Body ''x''" 0] h(9-11)
    by blast
  show ?thesis
    using h a b c d e f by (intro conjI)
qed

text \<open>
  C2 as stated fails when the exception is thrown by \<^verbatim>\<open>await res.arrayBuffer()\<close>, in the
  same \<^verbatim>\<open>try\<close> as \<^verbatim>\<open>fetch\<close>: on the delivery of two records the response is 200, the two
  records are removed, and then reading the body throws. The failure line is written
  and the call ends fulfilled, but the buffer has gone from two records to none.
\<close>

theorem ok_response_body_failure_after_splice:
  "map_option (\<lambda>w. (length (logs (logger w)), doFlushTasks w)) (Some ex_world_inflight)
     = Some (2, [(1, AwaitFetch 2)])
   \<and> map_option (\<lambda>w. (logs (logger w), drop 5 (effects w), promise_state w 1))
        (run [FetchSettles 1 (Response 200 ''OK''),
              BodySettles 1 (BodyThrows ''TypeError: body stream failed'')] ex_world_inflight)
     = Some ([], [ConsoleError ''Axiom failed to ingest logs: TypeError: body stream failed''],
             Some Fulfilled)"
  by code_simp

section \<open>The guard of flush\<close>

lemma update_last:
  "k \<notin> fst ` set xs \<Longrightarrow> AList.update k v (xs @ [(k, u)]) = xs @ [(k, v)]"
  by (induction xs) auto

lemma map_of_last:
  "k \<notin> fst ` set xs \<Longrightarrow> map_of (xs @ [(k, u)]) k = Some u"
  by (induction xs) auto

lemma fresh_ids:
  assumes "wf_world w" and "nextPromise w \<le> k"
  shows "k \<notin> fst ` set (promises w)" "k \<notin> fst ` set (flushTasks w)"
    "k \<notin> fst ` set (doFlushTasks w)"
proof -
  have b: "\<And>j. j \<in> fst ` set (promises w) \<union> fst ` set (flushTasks w)
                   \<union> fst ` set (doFlushTasks w) \<Longrightarrow> j < nextPromise w"
    using assms(1) by (simp only: wf_world_iff)
  have "k \<in> fst ` set (promises w) \<union> fst ` set (flushTasks w) \<union> fst ` set (doFlushTasks w)
          \<Longrightarrow> False"
  proof -
    assume "k \<in> fst ` set (promises w) \<union> fst ` set (flushTasks w) \<union> fst ` set (doFlushTasks w)"
    then have "k < nextPromise w" by (rule b)
    with assms(2) show False by simp
  qed
  then show "k \<notin> fst ` set (promises w)" "k \<notin> fst ` set (flushTasks w)"
    "k \<notin> fst ` set (doFlushTasks w)"
    by blast+
qed

lemma doFlush_sends:
  assumes "logs (logger w) \<noteq> []"
    and "JSON_stringify (JArr (map JObj (logs (logger w)))) = Inr body"
  shows "doFlush w =
     (nextPromise w,
      w\<lparr>promises := promises w @ [(nextPromise w, DoFlushCall, Pending)],
        nextPromise := Suc (nextPromise w),
        effects := effects w @
          [Fetch \<lparr> req_url = apiURL (logger w) @ ''/datasets/'' @ dataset (logger w) @ ''/ingest'',
                   req_method = ''POST'',
                   req_headers = [(''Content-Type'', ''application/json''),
                                  (''Authorization'', ''Bearer '' @ apiKey (logger w))],
                   req_body = json_text (logs (logger w)) \<rparr>],
        doFlushTasks := doFlushTasks w @ [(nextPromise w, AwaitFetch (length (logs (logger w))))]\<rparr>)"
  using assms by (simp add: doFlush_def Let_def host_defs json_text_def split: option.splits)

lemma completion_no_fetch:
  assumes "is_completion e w" and "step e w = Some w'"
  shows "fetches (effects w') = fetches (effects w)"
proof (cases e)
  case (FetchSettles d res)
  with assms(2) show ?thesis
    by (auto simp: fetch_settles_def end_doFlush_def host_defs fetches_append Let_def
        split: option.splits doFlush_pc.splits fetch_result.splits if_splits)
next
  case (BodySettles d res)
  with assms(2) show ?thesis
    by (auto simp: body_settles_def end_doFlush_def host_defs fetches_append
        split: option.splits doFlush_pc.splits body_result.splits)
next
  case (ResumeFlush p)
  with assms show ?thesis
    by (auto simp: resume_flush_def end_flush_def host_defs
        split: option.splits flush_pc.splits promise.splits)
qed (use assms(1) in simp_all)

lemma two_calls:
  assumes wf: "wf_world w" and idle: "flushPromise (logger w) = None"
    and ne: "logs (logger w) \<noteq> []"
    and ser: "JSON_stringify (JArr (map JObj (logs (logger w)))) = Inr body"
  shows "run [CallFlush True, ResumeFlush (nextPromise w), CallFlush True] w =
    Some (w\<lparr>logger := (logger w)\<lparr>flushPromise := Some (Suc (nextPromise w))\<rparr>,
            promises := promises w @ [(nextPromise w, FlushCall True, Pending),
                                      (Suc (nextPromise w), DoFlushCall, Pending),
                                      (Suc (Suc (nextPromise w)), FlushCall True, Fulfilled)],
            nextPromise := Suc (Suc (Suc (nextPromise w))),
            effects := effects w @
              [Fetch \<lparr> req_url = apiURL (logger w) @ ''/datasets/'' @ dataset (logger w) @ ''/ingest'',
                       req_method = ''POST'',
                       req_headers = [(''Content-Type'', ''application/json''),
                                      (''Authorization'', ''Bearer '' @ apiKey (logger w))],
                       req_body = json_text (logs (logger w)) \<rparr>],
            flushTasks := flushTasks w @ [(nextPromise w, AwaitDoFlush (Suc (nextPromise w)))],
            doFlushTasks := doFlushTasks w
               @ [(Suc (nextPromise w), AwaitFetch (length (logs (logger w))))]\<rparr>)"
proof -
  let ?p = "nextPromise w"
  define w1 where "w1 = snd (flush True w)"
  have w1: "w1 = w\<lparr>promises := promises w @ [(?p, FlushCall True, Pending)],
                   nextPromise := Suc ?p,
                   flushTasks := flushTasks w @ [(?p, AwaitBarrier None)]\<rparr>"
    using idle by (simp add: w1_def flush_True)
  have fr: "?p \<notin> fst ` set (flushTasks w)"
    using wf by (rule fresh_ids) simp
  have "flushTasks w1 = flushTasks w @ [(?p, AwaitBarrier None)]"
    by (simp add: w1)
  then have t1: "map_of (flushTasks w1) ?p = Some (AwaitBarrier None)"
    using map_of_last [OF fr] by simp
  have d1: "doFlush w1 = (Suc ?p, 
      w1\<lparr>promises := promises w1 @ [(Suc ?p, DoFlushCall, Pending)],
        nextPromise := Suc (Suc ?p),
        effects := effects w @
          [Fetch \<lparr> req_url = apiURL (logger w) @ ''/datasets/'' @ dataset (logger w) @ ''/ingest'',
                   req_method = ''POST'',
                   req_headers = [(''Content-Type'', ''application/json''),
                                  (''Authorization'', ''Bearer '' @ apiKey (logger w))],
                   req_body = json_text (logs (logger w)) \<rparr>],
        doFlushTasks := doFlushTasks w @ [(Suc ?p, AwaitFetch (length (logs (logger w))))]\<rparr>)"
    using doFlush_sends [of w1 body] ne ser by (simp add: w1)
  define w2 where "w2 = start_doFlush ?p w1"
  have w2: "w2 = w\<lparr>logger := (logger w)\<lparr>flushPromise := Some (Suc ?p)\<rparr>,
            promises := promises w @ [(?p, FlushCall True, Pending), (Suc ?p, DoFlushCall, Pending)],
            nextPromise := Suc (Suc ?p),
            effects := effects w @
              [Fetch \<lparr> req_url = apiURL (logger w) @ ''/datasets/'' @ dataset (logger w) @ ''/ingest'',
                       req_method = ''POST'',
                       req_headers = [(''Content-Type'', ''application/json''),
                                      (''Authorization'', ''Bearer '' @ apiKey (logger w))],
                       req_body = json_text (logs (logger w)) \<rparr>],
            flushTasks := flushTasks w @ [(?p, AwaitDoFlush (Suc ?p))],
            doFlushTasks := doFlushTasks w @ [(Suc ?p, AwaitFetch (length (logs (logger w))))]\<rparr>"
    using fr
    by (simp add: w2_def start_doFlush_def d1 Let_def set_flushPromise_def) (simp add: w1 update_last)
  have r: "resume_flush ?p w1 = Some w2"
    using t1 by (simp add: resume_flush_def w2_def)
  have "run [CallFlush True, ResumeFlush ?p, CallFlush True] w = Some (snd (flush True w2))"
    using r by (simp add: w1_def)
  then show ?thesis by (simp add: flush_True) (simp add: w2)
qed


text \<open>
  What holds of the guard. A call \<^verbatim>\<open>flush({skipIfInProgress: true})\<close> made while
  \<^verbatim>\<open>flushPromise\<close> is set returns at
  once, its promise fulfilled: the logger, the effects, the timers and the suspended
  calls are as before. Hence, of two such calls on an idle logger with a non-empty
  buffer that can be serialised, the second made when the first has been resumed and
  is awaiting its \<^verbatim>\<open>doFlush\<close>, exactly one request is sent, with the buffer as its body;
  and no piece that carries the delivery to its end sends another.
\<close>

theorem skip_guard_single_delivery:
  "(flushPromise (logger w) \<noteq> None \<longrightarrow>
      flush True w =
        (nextPromise w,
         w\<lparr>promises := promises w @ [(nextPromise w, FlushCall True, Fulfilled)],
           nextPromise := Suc (nextPromise w)\<rparr>))
   \<and> (wf_world w \<and> flushPromise (logger w) = None \<and> logs (logger w) \<noteq> []
        \<and> JSON_stringify (JArr (map JObj (logs (logger w)))) = Inr body \<longrightarrow>
      (\<exists>w3 r. run [CallFlush True, ResumeFlush (nextPromise w), CallFlush True] w = Some w3
         \<and> fetches (effects w3) = fetches (effects w) @ [r]
         \<and> req_body r = json_text (logs (logger w))
         \<and> logs (logger w3) = logs (logger w)
         \<and> flushPromise (logger w3) = Some (Suc (nextPromise w))
         \<and> flushTasks w3 = flushTasks w @ [(nextPromise w, AwaitDoFlush (Suc (nextPromise w)))]
         \<and> doFlushTasks w3 = doFlushTasks w
              @ [(Suc (nextPromise w), AwaitFetch (length (logs (logger w))))]
         \<and> promise_state w3 (Suc (Suc (nextPromise w))) = Some Fulfilled))
   \<and> (is_completion e w \<and> step e w = Some w' \<longrightarrow> fetches (effects w') = fetches (effects w))"
proof (intro conjI impI)
  assume "flushPromise (logger w) \<noteq> None"
  then show "flush True w =
        (nextPromise w,
         w\<lparr>promises := promises w @ [(nextPromise w, FlushCall True, Fulfilled)],
           nextPromise := Suc (nextPromise w)\<rparr>)"
    by (simp add: flush_True)
next
  assume a: "wf_world w \<and> flushPromise (logger w) = None \<and> logs (logger w) \<noteq> []
        \<and> JSON_stringify (JArr (map JObj (logs (logger w)))) = Inr body"
  then have wf: "wf_world w" and idle: "flushPromise (logger w) = None"
    and ne: "logs (logger w) \<noteq> []"
    and ser: "JSON_stringify (JArr (map JObj (logs (logger w)))) = Inr body"
    by simp_all
  have fr: "Suc (Suc (nextPromise w)) \<notin> fst ` set (promises w)"
    using wf by (rule fresh_ids) simp
  note r = two_calls [OF wf idle ne ser]
  show "\<exists>w3 r. run [CallFlush True, ResumeFlush (nextPromise w), CallFlush True] w = Some w3
         \<and> fetches (effects w3) = fetches (effects w) @ [r]
         \<and> req_body r = json_text (logs (logger w))
         \<and> logs (logger w3) = logs (logger w)
         \<and> flushPromise (logger w3) = Some (Suc (nextPromise w))
         \<and> flushTasks w3 = flushTasks w @ [(nextPromise w, AwaitDoFlush (Suc (nextPromise w)))]
         \<and> doFlushTasks w3 = doFlushTasks w
              @ [(Suc (nextPromise w), AwaitFetch (length (logs (logger w))))]
         \<and> promise_state w3 (Suc (Suc (nextPromise w))) = Some Fulfilled"
  proof (subst r, intro exI conjI, rule refl)
    have "map_of (promises w) (Suc (Suc (nextPromise w))) = None"
      using fr by (simp add: map_of_eq_None_iff)
    then show "promise_state
       (w\<lparr>logger := (logger w)\<lparr>flushPromise := Some (Suc (nextPromise w))\<rparr>,
            promises := promises w @ [(nextPromise w, FlushCall True, Pending),
                                      (Suc (nextPromise w), DoFlushCall, Pending),
                                      (Suc (Suc (nextPromise w)), FlushCall True, Fulfilled)],
            nextPromise := Suc (Suc (Suc (nextPromise w))),
            effects := effects w @
              [Fetch \<lparr> req_url = apiURL (logger w) @ ''/datasets/'' @ dataset (logger w) @ ''/ingest'',
                       req_method = ''POST'',
                       req_headers = [(''Content-Type'', ''application/json''),
                                      (''Authorization'', ''Bearer '' @ apiKey (logger w))],
                       req_body = json_text (logs (logger w)) \<rparr>],
            flushTasks := flushTasks w @ [(nextPromise w, AwaitDoFlush (Suc (nextPromise w)))],
            doFlushTasks := doFlushTasks w
               @ [(Suc (nextPromise w), AwaitFetch (length (logs (logger w))))]\<rparr>)
       (Suc (Suc (nextPromise w))) = Some Fulfilled"
      by (simp add: promise_state_def map_add_def)
  qed (simp_all add: fetches_append, simp_all)
next
  assume "is_completion e w \<and> step e w = Some w'"
  then show "fetches (effects w') = fetches (effects w)"
    using completion_no_fetch by blast
qed

text \<open>
  The theorem on the logger with a delivery in flight (the guard, and the answer 200), and
  on the logger after \<^verbatim>\<open>info("a")\<close> (the two calls).
\<close>

theorem skip_guard_single_delivery_witness:
  "flushPromise (logger ex_world_inflight) \<noteq> None
   \<and> flush True ex_world_inflight =
        (nextPromise ex_world_inflight,
         ex_world_inflight\<lparr>promises := promises ex_world_inflight
                               @ [(nextPromise ex_world_inflight, FlushCall True, Fulfilled)],
           nextPromise := Suc (nextPromise ex_world_inflight)\<rparr>)
   \<and> wf_world ex_world_a \<and> flushPromise (logger ex_world_a) = None \<and> logs (logger ex_world_a) \<noteq> []
   \<and> JSON_stringify (JArr (map JObj (logs (logger ex_world_a))))
       = Inr (Some (json_text (logs (logger ex_world_a))))
   \<and> (\<exists>w3 r. run [CallFlush True, ResumeFlush (nextPromise ex_world_a), CallFlush True] ex_world_a
                = Some w3
         \<and> fetches (effects w3) = fetches (effects ex_world_a) @ [r]
         \<and> req_body r = json_text (logs (logger ex_world_a))
         \<and> promise_state w3 (Suc (Suc (nextPromise ex_world_a))) = Some Fulfilled)
   \<and> is_completion (FetchSettles 1 (Response 200 ''OK'')) ex_world_inflight
   \<and> step (FetchSettles 1 (Response 200 ''OK'')) ex_world_inflight
       = Some (the_world (step (FetchSettles 1 (Response 200 ''OK'')) ex_world_inflight))
   \<and> fetches (effects (the_world (step (FetchSettles 1 (Response 200 ''OK'')) ex_world_inflight)))
       = fetches (effects ex_world_inflight)"
proof -
  have h: "flushPromise (logger ex_world_inflight) \<noteq> None"
    "wf_world ex_world_a" "flushPromise (logger ex_world_a) = None" "logs (logger ex_world_a) \<noteq> []"
    "JSON_stringify (JArr (map JObj (logs (logger ex_world_a))))
       = Inr (Some (json_text (logs (logger ex_world_a))))"
    "is_completion (FetchSettles 1 (Response 200 ''OK'')) ex_world_inflight"
    "step (FetchSettles 1 (Response 200 ''OK'')) ex_world_inflight
       = Some (the_world (step (FetchSettles 1 (Response 200 ''OK'')) ex_world_inflight))"
    by code_simp+
  from skip_guard_single_delivery [of ex_world_inflight "Some ''b''" "CallFlush True" ex_world_inflight]
    skip_guard_single_delivery [of ex_world_a "Some (json_text (logs (logger ex_world_a)))" "CallFlush True" ex_world_a]
    skip_guard_single_delivery [of ex_world_inflight "Some ''b''" "FetchSettles 1 (Response 200 ''OK'')"
          "the_world (step (FetchSettles 1 (Response 200 ''OK'')) ex_world_inflight)"]
    h
  show ?thesis by blast
qed

text \<open>
  C3 does not hold of every execution. The guard reads \<^verbatim>\<open>flushPromise\<close>, which a call of
  \<^verbatim>\<open>flush\<close> writes only when it is resumed from \<^verbatim>\<open>await this.flushPromise\<close>. Of two calls
  \<^verbatim>\<open>flush({skipIfInProgress: true})\<close> made one after the other on the idle logger that
  holds the record \<^verbatim>\<open>a\<close>, the second finds the field still \<^verbatim>\<open>null\<close> and is not skipped:
  both are suspended, and resumed each calls \<^verbatim>\<open>doFlush\<close> and sends the record. Two
  requests with the same body go out.
\<close>

theorem same_tick_flushes_send_twice:
  "map_option (\<lambda>w. (logs (logger w), flushPromise (logger w), fetches (effects w)))
       (Some ex_world_a)
     = Some ([ex_record ''a''], None, [])
   \<and> map_option (\<lambda>w. (flushPromise (logger w), flushTasks w, fetches (effects w)))
        (run (take 2 same_tick_flushes) ex_world_a)
     = Some (None, [(0, AwaitBarrier None), (1, AwaitBarrier None)], [])
   \<and> map_option (\<lambda>w. (map req_body (fetches (effects w)), doFlushTasks w))
        (run same_tick_flushes ex_world_a)
     = Some ([json_text [ex_record ''a''], json_text [ex_record ''a'']],
             [(2, AwaitFetch 1), (3, AwaitFetch 1)])"
  by code_simp

section \<open>Successful deliveries\<close>

text \<open>
  On a response that is ok, \<^verbatim>\<open>doFlush\<close> removes the first \<^verbatim>\<open>logsCount\<close> records the buffer
  has then. When the buffer still begins with the records of the snapshot, these are the
  ones removed, and what was appended since stays, in order.
\<close>

lemma delivery_removes_prefix:
  assumes "map_of (doFlushTasks w) d = Some (AwaitFetch n)" and "ok status"
  shows "\<exists>w'. fetch_settles d (Response status statusText) w = Some w'
           \<and> logs (logger w') = drop n (logs (logger w))
           \<and> map_of (doFlushTasks w') d = Some AwaitArrayBuffer"
  using assms by (simp add: fetch_settles_def Let_def logs_splice_def update_conv')

lemma delivery_keeps_later_records:
  assumes "map_of (doFlushTasks w) d = Some (AwaitFetch n)" and "ok status"
    and "logs (logger w) = xs @ ys" and "length xs = n"
  shows "\<exists>w'. fetch_settles d (Response status statusText) w = Some w'
           \<and> logs (logger w') = ys"
  using delivery_removes_prefix [OF assms(1,2), of statusText] assms(3,4) by auto

text \<open>
  C1 does not hold of every execution: two calls of \<^verbatim>\<open>flush\<close> can be in flight at once,
  and then the second successful delivery removes records that were never sent. In
  \<^const>\<open>overlap_started\<close> both calls of \<^verbatim>\<open>doFlush\<close> have taken the snapshot of the three
  records \<^verbatim>\<open>a\<close>, \<^verbatim>\<open>b\<close>, \<^verbatim>\<open>c\<close> and sent the same body. \<^verbatim>\<open>d\<close> is appended after both
  snapshots. The first answer removes \<^verbatim>\<open>a\<close>, \<^verbatim>\<open>b\<close>, \<^verbatim>\<open>c\<close>; the second removes \<^verbatim>\<open>d\<close>, which
  is in neither request.
\<close>

theorem overlapping_flushes_lose_record:
  "map_option (\<lambda>w. (logs (logger w), map req_body (fetches (effects w)), doFlushTasks w))
       (run overlap_started ex_world)
     = Some ([ex_record ''a'', ex_record ''b'', ex_record ''c''],
             [json_text [ex_record ''a'', ex_record ''b'', ex_record ''c''],
              json_text [ex_record ''a'', ex_record ''b'', ex_record ''c'']],
             [(2, AwaitFetch 3), (3, AwaitFetch 3)])
   \<and> map_option (\<lambda>w. logs (logger w))
        (run (overlap_started @ [CallInfo ''d'' None ex_env]) ex_world)
     = Some [ex_record ''a'', ex_record ''b'', ex_record ''c'', ex_record ''d'']
   \<and> map_option (\<lambda>w. logs (logger w))
        (run (overlap_started @ [CallInfo ''d'' None ex_env, FetchSettles 2 (Response 200 ''OK'')])
           ex_world)
     = Some [ex_record ''d'']
   \<and> map_option (\<lambda>w. (logs (logger w), map req_body (fetches (effects w))))
        (run overlap_answered ex_world)
     = Some ([], [json_text [ex_record ''a'', ex_record ''b'', ex_record ''c''],
                  json_text [ex_record ''a'', ex_record ''b'', ex_record ''c'']])"
  by code_simp

end
